theory Spec2Isabelle
  imports Main "HOL-Library.Word" "HOL-Library.Char_ord" "HOL-Library.AList"
begin

unbundle bit_operations_syntax

text \<open>
  The symmetric codec of \<open>internal/crypto/crypto.go\<close> and the vault sharing and access
  rules of \<open>internal/core\<close> (\<open>vault_service.go\<close>, \<open>secret_service.go\<close>), embedded as
  functions, with the properties C1 to C10 of their specification. The definitions come
  first, in the order of the packages; the lemmas and the ten properties follow.
\<close>

section \<open>Byte strings\<close>

text \<open>
  A Go \<open>string\<close> is a sequence of bytes and is modelled as \<open>string\<close> (a list of
  8-bit \<open>char\<close>); a Go \<open>[]byte\<close> is a list of 8-bit words. The conversions
  \<open>[]byte(s)\<close> and \<open>string(b)\<close> copy the bytes unchanged.
\<close>

type_synonym byte = "8 word"

definition byte_of_char :: "char \<Rightarrow> byte" where
  "byte_of_char c = of_char c"

definition char_of_byte :: "byte \<Rightarrow> char" where
  "char_of_byte b = char_of (unat b)"

definition bytes_of_string :: "string \<Rightarrow> byte list" where
  "bytes_of_string s = map byte_of_char s"

definition string_of_bytes :: "byte list \<Rightarrow> string" where
  "string_of_bytes bs = map char_of_byte bs"

section \<open>encoding/hex\<close>

text \<open>
  The standard library's \<open>hex.EncodeToString\<close> writes, for every byte \<open>v\<close>,
  \<open>hextable[v>>4]\<close> and \<open>hextable[v&0x0f]\<close>; \<open>hex.DecodeString\<close> reads pairs of
  digits (either case), and fails on a digit outside the alphabet and on an odd length.
\<close>

definition hextable :: string where
  "hextable = ''0123456789abcdef''"

fun hex_EncodeToString :: "byte list \<Rightarrow> string" where
  "hex_EncodeToString [] = []"
| "hex_EncodeToString (v # src) =
     hextable ! unat (drop_bit 4 v) # hextable ! unat (v AND 0x0f) # hex_EncodeToString src"

definition fromHexChar :: "char \<Rightarrow> byte option" where
  "fromHexChar c =
     (if CHR ''0'' \<le> c \<and> c \<le> CHR ''9'' then Some (byte_of_char c - byte_of_char CHR ''0'')
      else if CHR ''a'' \<le> c \<and> c \<le> CHR ''f'' then Some (byte_of_char c - byte_of_char CHR ''a'' + 10)
      else if CHR ''A'' \<le> c \<and> c \<le> CHR ''F'' then Some (byte_of_char c - byte_of_char CHR ''A'' + 10)
      else None)"

fun hex_DecodeString :: "string \<Rightarrow> byte list option" where
  "hex_DecodeString [] = Some []"
| "hex_DecodeString [p] = None"
| "hex_DecodeString (p # q # src) =
     (case fromHexChar p of
        None \<Rightarrow> None
      | Some a \<Rightarrow>
          (case fromHexChar q of
             None \<Rightarrow> None
           | Some b \<Rightarrow>
               (case hex_DecodeString src of
                  None \<Rightarrow> None
                | Some dst \<Rightarrow> Some ((push_bit 4 a OR b) # dst))))"

section \<open>encoding/base64, StdEncoding\<close>

text \<open>
  \<open>base64.StdEncoding\<close> is the padded standard alphabet. The encoder packs three bytes
  into a 24-bit value and emits four sextets; one or two remaining bytes give two or
  three digits and \<open>=\<close> padding. The decoder ignores carriage returns and line feeds,
  reads quanta of four digits, accepts padding only to complete the last quantum, and
  does not check the unused low bits of a padded quantum (non-strict mode).
\<close>

definition encodeStd :: string where
  "encodeStd = ''ABCDEFGHIJKLMNOPQRSTUVWXYZabcdefghijklmnopqrstuvwxyz0123456789+/''"

definition encode_digit :: "nat \<Rightarrow> char" where
  "encode_digit val = encodeStd ! (val AND 0x3F)"

fun base64_EncodeToString :: "byte list \<Rightarrow> string" where
  "base64_EncodeToString [] = []"
| "base64_EncodeToString [s0] =
     (let val = push_bit 16 (unat s0)
      in [encode_digit (drop_bit 18 val), encode_digit (drop_bit 12 val), CHR ''='', CHR ''=''])"
| "base64_EncodeToString [s0, s1] =
     (let val = push_bit 16 (unat s0) OR push_bit 8 (unat s1)
      in [encode_digit (drop_bit 18 val), encode_digit (drop_bit 12 val),
          encode_digit (drop_bit 6 val), CHR ''=''])"
| "base64_EncodeToString (s0 # s1 # s2 # src) =
     (let val = push_bit 16 (unat s0) OR push_bit 8 (unat s1) OR unat s2
      in encode_digit (drop_bit 18 val) # encode_digit (drop_bit 12 val) #
         encode_digit (drop_bit 6 val) # encode_digit val # base64_EncodeToString src)"

fun index_of :: "char \<Rightarrow> string \<Rightarrow> nat \<Rightarrow> nat option" where
  "index_of c [] i = None"
| "index_of c (x # xs) i = (if x = c then Some i else index_of c xs (Suc i))"

definition decodeMap :: "char \<Rightarrow> nat option" where
  "decodeMap c = index_of c encodeStd 0"

definition byte_of_uint :: "nat \<Rightarrow> byte" where
  "byte_of_uint val = of_nat val"

fun decodeQuanta :: "string \<Rightarrow> byte list option" where
  "decodeQuanta (c0 # c1 # c2 # c3 # src) =
     (case decodeMap c0 of
        None \<Rightarrow> None
      | Some d0 \<Rightarrow>
          (case decodeMap c1 of
             None \<Rightarrow> None
           | Some d1 \<Rightarrow>
               (case decodeMap c2 of
                  None \<Rightarrow>
                    (if c2 = CHR ''='' \<and> c3 = CHR ''='' \<and> src = []
                     then (let val = push_bit 18 d0 OR push_bit 12 d1
                           in Some [byte_of_uint (drop_bit 16 val)])
                     else None)
                | Some d2 \<Rightarrow>
                    (case decodeMap c3 of
                       None \<Rightarrow>
                         (if c3 = CHR ''='' \<and> src = []
                          then (let val = push_bit 18 d0 OR push_bit 12 d1 OR push_bit 6 d2
                                in Some [byte_of_uint (drop_bit 16 val), byte_of_uint (drop_bit 8 val)])
                          else None)
                     | Some d3 \<Rightarrow>
                         (let val = push_bit 18 d0 OR push_bit 12 d1 OR push_bit 6 d2 OR d3
                          in case decodeQuanta src of
                               None \<Rightarrow> None
                             | Some dst \<Rightarrow>
                                 Some (byte_of_uint (drop_bit 16 val) # byte_of_uint (drop_bit 8 val) #
                                       byte_of_uint val # dst))))))"
| "decodeQuanta [] = Some []"
| "decodeQuanta src = None"

definition base64_DecodeString :: "string \<Rightarrow> byte list option" where
  "base64_DecodeString s = decodeQuanta (filter (\<lambda>c. c \<noteq> CHR 0x0D \<and> c \<noteq> CHR 0x0A) s)"

section \<open>crypto/aes, crypto/cipher and the random source\<close>

text \<open>
  The AES block function belongs to the Go standard library, not to this repository.
  \<open>Encrypt\<close> and \<open>Decrypt\<close> take it as a parameter \<open>aes\<close>: for every key, a pair of
  functions on blocks. \<open>AES\<close> below, the cipher of FIPS-197 that \<open>crypto/aes\<close>
  implements, is the instance the program runs with.
  \<open>aes.NewCipher\<close> refuses every key that is not 16, 24 or 32 bytes long.
\<close>

abbreviation BlockSize :: nat where
  "BlockSize \<equiv> 16"

record cipher_Block =
  Block_Encrypt :: "byte list \<Rightarrow> byte list"
  Block_Decrypt :: "byte list \<Rightarrow> byte list"

definition aes_NewCipher :: "(byte list \<Rightarrow> cipher_Block) \<Rightarrow> byte list \<Rightarrow> cipher_Block option" where
  "aes_NewCipher aes key =
     (if length key = 16 \<or> length key = 24 \<or> length key = 32 then Some (aes key) else None)"

text \<open>
  The contract of \<open>cipher.Block\<close> that the round trip relies on: on a block of
  \<open>BlockSize\<close> bytes, \<open>Encrypt\<close> yields a block of that size and \<open>Decrypt\<close>
  undoes it.
\<close>

definition block_cipher :: "cipher_Block \<Rightarrow> bool" where
  "block_cipher block \<longleftrightarrow>
     (\<forall>b. length b = BlockSize \<longrightarrow>
        length (Block_Encrypt block b) = BlockSize \<and>
        Block_Decrypt block (Block_Encrypt block b) = b)"

definition xor_bytes :: "byte list \<Rightarrow> byte list \<Rightarrow> byte list" where
  "xor_bytes x y = map2 (XOR) x y"

subsection \<open>The block cipher of FIPS-197\<close>

text \<open>
  The state is the block of 16 bytes in the order of the input (column by column): byte
  \<open>r + 4 * c\<close> is row \<open>r\<close> of column \<open>c\<close>. \<open>SubBytes\<close> substitutes every byte through
  the S-box, \<open>ShiftRows\<close> rotates row \<open>r\<close> by \<open>r\<close> columns to the left, \<open>MixColumns\<close>
  multiplies every column by a fixed matrix over the field of 256 elements (\<open>xtime\<close> is
  the multiplication by \<open>x\<close> modulo \<open>x\<^sup>8 + x\<^sup>4 + x\<^sup>3 + x + 1\<close>), and \<open>AddRoundKey\<close> XORs
  the round key into the state.
\<close>

definition sbox :: "byte list" where
  "sbox = [
      0x63, 0x7c, 0x77, 0x7b, 0xf2, 0x6b, 0x6f, 0xc5, 0x30, 0x01, 0x67, 0x2b, 0xfe, 0xd7, 0xab, 0x76,
      0xca, 0x82, 0xc9, 0x7d, 0xfa, 0x59, 0x47, 0xf0, 0xad, 0xd4, 0xa2, 0xaf, 0x9c, 0xa4, 0x72, 0xc0,
      0xb7, 0xfd, 0x93, 0x26, 0x36, 0x3f, 0xf7, 0xcc, 0x34, 0xa5, 0xe5, 0xf1, 0x71, 0xd8, 0x31, 0x15,
      0x04, 0xc7, 0x23, 0xc3, 0x18, 0x96, 0x05, 0x9a, 0x07, 0x12, 0x80, 0xe2, 0xeb, 0x27, 0xb2, 0x75,
      0x09, 0x83, 0x2c, 0x1a, 0x1b, 0x6e, 0x5a, 0xa0, 0x52, 0x3b, 0xd6, 0xb3, 0x29, 0xe3, 0x2f, 0x84,
      0x53, 0xd1, 0x00, 0xed, 0x20, 0xfc, 0xb1, 0x5b, 0x6a, 0xcb, 0xbe, 0x39, 0x4a, 0x4c, 0x58, 0xcf,
      0xd0, 0xef, 0xaa, 0xfb, 0x43, 0x4d, 0x33, 0x85, 0x45, 0xf9, 0x02, 0x7f, 0x50, 0x3c, 0x9f, 0xa8,
      0x51, 0xa3, 0x40, 0x8f, 0x92, 0x9d, 0x38, 0xf5, 0xbc, 0xb6, 0xda, 0x21, 0x10, 0xff, 0xf3, 0xd2,
      0xcd, 0x0c, 0x13, 0xec, 0x5f, 0x97, 0x44, 0x17, 0xc4, 0xa7, 0x7e, 0x3d, 0x64, 0x5d, 0x19, 0x73,
      0x60, 0x81, 0x4f, 0xdc, 0x22, 0x2a, 0x90, 0x88, 0x46, 0xee, 0xb8, 0x14, 0xde, 0x5e, 0x0b, 0xdb,
      0xe0, 0x32, 0x3a, 0x0a, 0x49, 0x06, 0x24, 0x5c, 0xc2, 0xd3, 0xac, 0x62, 0x91, 0x95, 0xe4, 0x79,
      0xe7, 0xc8, 0x37, 0x6d, 0x8d, 0xd5, 0x4e, 0xa9, 0x6c, 0x56, 0xf4, 0xea, 0x65, 0x7a, 0xae, 0x08,
      0xba, 0x78, 0x25, 0x2e, 0x1c, 0xa6, 0xb4, 0xc6, 0xe8, 0xdd, 0x74, 0x1f, 0x4b, 0xbd, 0x8b, 0x8a,
      0x70, 0x3e, 0xb5, 0x66, 0x48, 0x03, 0xf6, 0x0e, 0x61, 0x35, 0x57, 0xb9, 0x86, 0xc1, 0x1d, 0x9e,
      0xe1, 0xf8, 0x98, 0x11, 0x69, 0xd9, 0x8e, 0x94, 0x9b, 0x1e, 0x87, 0xe9, 0xce, 0x55, 0x28, 0xdf,
      0x8c, 0xa1, 0x89, 0x0d, 0xbf, 0xe6, 0x42, 0x68, 0x41, 0x99, 0x2d, 0x0f, 0xb0, 0x54, 0xbb, 0x16]"

definition inv_sbox :: "byte list" where
  "inv_sbox = [
      0x52, 0x09, 0x6a, 0xd5, 0x30, 0x36, 0xa5, 0x38, 0xbf, 0x40, 0xa3, 0x9e, 0x81, 0xf3, 0xd7, 0xfb,
      0x7c, 0xe3, 0x39, 0x82, 0x9b, 0x2f, 0xff, 0x87, 0x34, 0x8e, 0x43, 0x44, 0xc4, 0xde, 0xe9, 0xcb,
      0x54, 0x7b, 0x94, 0x32, 0xa6, 0xc2, 0x23, 0x3d, 0xee, 0x4c, 0x95, 0x0b, 0x42, 0xfa, 0xc3, 0x4e,
      0x08, 0x2e, 0xa1, 0x66, 0x28, 0xd9, 0x24, 0xb2, 0x76, 0x5b, 0xa2, 0x49, 0x6d, 0x8b, 0xd1, 0x25,
      0x72, 0xf8, 0xf6, 0x64, 0x86, 0x68, 0x98, 0x16, 0xd4, 0xa4, 0x5c, 0xcc, 0x5d, 0x65, 0xb6, 0x92,
      0x6c, 0x70, 0x48, 0x50, 0xfd, 0xed, 0xb9, 0xda, 0x5e, 0x15, 0x46, 0x57, 0xa7, 0x8d, 0x9d, 0x84,
      0x90, 0xd8, 0xab, 0x00, 0x8c, 0xbc, 0xd3, 0x0a, 0xf7, 0xe4, 0x58, 0x05, 0xb8, 0xb3, 0x45, 0x06,
      0xd0, 0x2c, 0x1e, 0x8f, 0xca, 0x3f, 0x0f, 0x02, 0xc1, 0xaf, 0xbd, 0x03, 0x01, 0x13, 0x8a, 0x6b,
      0x3a, 0x91, 0x11, 0x41, 0x4f, 0x67, 0xdc, 0xea, 0x97, 0xf2, 0xcf, 0xce, 0xf0, 0xb4, 0xe6, 0x73,
      0x96, 0xac, 0x74, 0x22, 0xe7, 0xad, 0x35, 0x85, 0xe2, 0xf9, 0x37, 0xe8, 0x1c, 0x75, 0xdf, 0x6e,
      0x47, 0xf1, 0x1a, 0x71, 0x1d, 0x29, 0xc5, 0x89, 0x6f, 0xb7, 0x62, 0x0e, 0xaa, 0x18, 0xbe, 0x1b,
      0xfc, 0x56, 0x3e, 0x4b, 0xc6, 0xd2, 0x79, 0x20, 0x9a, 0xdb, 0xc0, 0xfe, 0x78, 0xcd, 0x5a, 0xf4,
      0x1f, 0xdd, 0xa8, 0x33, 0x88, 0x07, 0xc7, 0x31, 0xb1, 0x12, 0x10, 0x59, 0x27, 0x80, 0xec, 0x5f,
      0x60, 0x51, 0x7f, 0xa9, 0x19, 0xb5, 0x4a, 0x0d, 0x2d, 0xe5, 0x7a, 0x9f, 0x93, 0xc9, 0x9c, 0xef,
      0xa0, 0xe0, 0x3b, 0x4d, 0xae, 0x2a, 0xf5, 0xb0, 0xc8, 0xeb, 0xbb, 0x3c, 0x83, 0x53, 0x99, 0x61,
      0x17, 0x2b, 0x04, 0x7e, 0xba, 0x77, 0xd6, 0x26, 0xe1, 0x69, 0x14, 0x63, 0x55, 0x21, 0x0c, 0x7d]"

definition SubBytes :: "byte list \<Rightarrow> byte list" where
  "SubBytes s = map (\<lambda>b. sbox ! unat b) s"

definition InvSubBytes :: "byte list \<Rightarrow> byte list" where
  "InvSubBytes s = map (\<lambda>b. inv_sbox ! unat b) s"

definition ShiftRows :: "byte list \<Rightarrow> byte list" where
  "ShiftRows s = map (\<lambda>i. s ! i) [0, 5, 10, 15, 4, 9, 14, 3, 8, 13, 2, 7, 12, 1, 6, 11]"

definition InvShiftRows :: "byte list \<Rightarrow> byte list" where
  "InvShiftRows s = map (\<lambda>i. s ! i) [0, 13, 10, 7, 4, 1, 14, 11, 8, 5, 2, 15, 12, 9, 6, 3]"

definition xtime :: "byte \<Rightarrow> byte" where
  "xtime b = (if bit b 7 then push_bit 1 b XOR 0x1b else push_bit 1 b)"

definition mul3 :: "byte \<Rightarrow> byte" where "mul3 b = xtime b XOR b"
definition mul9 :: "byte \<Rightarrow> byte" where "mul9 b = xtime (xtime (xtime b)) XOR b"
definition mul11 :: "byte \<Rightarrow> byte" where "mul11 b = xtime (xtime (xtime b)) XOR xtime b XOR b"
definition mul13 :: "byte \<Rightarrow> byte" where "mul13 b = xtime (xtime (xtime b)) XOR xtime (xtime b) XOR b"
definition mul14 :: "byte \<Rightarrow> byte" where "mul14 b = xtime (xtime (xtime b)) XOR xtime (xtime b) XOR xtime b"

fun MixColumns :: "byte list \<Rightarrow> byte list" where
  "MixColumns (a # b # c # d # s) =
     (xtime a XOR mul3 b XOR c XOR d) # (a XOR xtime b XOR mul3 c XOR d) #
     (a XOR b XOR xtime c XOR mul3 d) # (mul3 a XOR b XOR c XOR xtime d) # MixColumns s"
| "MixColumns s = s"

fun InvMixColumns :: "byte list \<Rightarrow> byte list" where
  "InvMixColumns (a # b # c # d # s) =
     (mul14 a XOR mul11 b XOR mul13 c XOR mul9 d) # (mul9 a XOR mul14 b XOR mul11 c XOR mul13 d) #
     (mul13 a XOR mul9 b XOR mul14 c XOR mul11 d) # (mul11 a XOR mul13 b XOR mul9 c XOR mul14 d) #
     InvMixColumns s"
| "InvMixColumns s = s"

definition AddRoundKey :: "byte list \<Rightarrow> byte list \<Rightarrow> byte list" where
  "AddRoundKey s k = xor_bytes s k"

text \<open>
  Key expansion: a key of \<open>4 * Nk\<close> bytes is expanded into \<open>4 * (Nr + 1)\<close> words of
  four bytes, where \<open>Nr = Nk + 6\<close> is the number of rounds.
\<close>

definition SubWord :: "byte list \<Rightarrow> byte list" where
  "SubWord w = map (\<lambda>b. sbox ! unat b) w"

definition RotWord :: "byte list \<Rightarrow> byte list" where
  "RotWord w = rotate1 w"

fun Rcon :: "nat \<Rightarrow> byte" where
  "Rcon 0 = 0x8d"
| "Rcon (Suc n) = xtime (Rcon n)"

fun words :: "byte list \<Rightarrow> byte list list" where
  "words (a # b # c # d # s) = [a, b, c, d] # words s"
| "words s = []"

fun expand :: "nat \<Rightarrow> nat \<Rightarrow> nat \<Rightarrow> byte list list \<Rightarrow> byte list list" where
  "expand Nk 0 i w = w"
| "expand Nk (Suc n) i w =
     (let temp = last w;
          temp = (if i mod Nk = 0 then xor_bytes (SubWord (RotWord temp)) [Rcon (i div Nk), 0, 0, 0]
                  else if 6 < Nk \<and> i mod Nk = 4 then SubWord temp
                  else temp)
      in expand Nk n (Suc i) (w @ [xor_bytes (w ! (i - Nk)) temp]))"

definition KeyExpansion :: "byte list \<Rightarrow> byte list list" where
  "KeyExpansion key =
     (let Nk = length key div 4; Nr = Nk + 6
      in expand Nk (4 * (Nr + 1) - Nk) Nk (words key))"

definition round_key :: "byte list list \<Rightarrow> nat \<Rightarrow> byte list" where
  "round_key w r = concat (take 4 (drop (4 * r) w))"

fun rounds :: "byte list list \<Rightarrow> nat \<Rightarrow> nat \<Rightarrow> byte list \<Rightarrow> byte list" where
  "rounds w r 0 s = s"
| "rounds w r (Suc n) s =
     rounds w (Suc r) n (AddRoundKey (MixColumns (ShiftRows (SubBytes s))) (round_key w r))"

definition Cipher :: "nat \<Rightarrow> byte list list \<Rightarrow> byte list \<Rightarrow> byte list" where
  "Cipher Nr w input =
     (let s = AddRoundKey input (round_key w 0);
          s = rounds w 1 (Nr - 1) s
      in AddRoundKey (ShiftRows (SubBytes s)) (round_key w Nr))"

fun inv_rounds :: "byte list list \<Rightarrow> nat \<Rightarrow> nat \<Rightarrow> byte list \<Rightarrow> byte list" where
  "inv_rounds w r 0 s = s"
| "inv_rounds w r (Suc n) s =
     inv_rounds w (r - 1) n (InvMixColumns (AddRoundKey (InvSubBytes (InvShiftRows s)) (round_key w r)))"

definition InvCipher :: "nat \<Rightarrow> byte list list \<Rightarrow> byte list \<Rightarrow> byte list" where
  "InvCipher Nr w input =
     (let s = AddRoundKey input (round_key w Nr);
          s = inv_rounds w (Nr - 1) (Nr - 1) s
      in AddRoundKey (InvSubBytes (InvShiftRows s)) (round_key w 0))"

definition AES :: "byte list \<Rightarrow> cipher_Block" where
  "AES key =
     (let Nr = length key div 4 + 6; w = KeyExpansion key
      in \<lparr>Block_Encrypt = Cipher Nr w, Block_Decrypt = InvCipher Nr w\<rparr>)"

text \<open>Every round key that \<open>Cipher\<close> and \<open>InvCipher\<close> use is a block.\<close>

definition round_keys_ok :: "nat \<Rightarrow> byte list list \<Rightarrow> bool" where
  "round_keys_ok Nr w \<longleftrightarrow> (\<forall>r \<le> Nr. length (round_key w r) = 16)"

subsection \<open>CBC mode and the random source\<close>

text \<open>
  CBC mode (\<open>cipher.NewCBCEncrypter\<close>, \<open>cipher.NewCBCDecrypter\<close> and their
  \<open>CryptBlocks\<close>): every plaintext block is XORed with the previous ciphertext block
  (the IV for the first) and encrypted. The constructors panic on an IV that is not one
  block long, \<open>CryptBlocks\<close> on an input that is not made of full blocks; a panic is
  the result \<open>None\<close>.
\<close>

function cbc_encrypt_blocks :: "cipher_Block \<Rightarrow> byte list \<Rightarrow> byte list \<Rightarrow> byte list" where
  "cbc_encrypt_blocks block iv src =
     (if length src = 0 then []
      else (let dst = Block_Encrypt block (xor_bytes (take BlockSize src) iv)
            in dst @ cbc_encrypt_blocks block dst (drop BlockSize src)))"
  by pat_completeness auto
termination
  by (relation "measure (\<lambda>(block, iv, src). length src)") auto

function cbc_decrypt_blocks :: "cipher_Block \<Rightarrow> byte list \<Rightarrow> byte list \<Rightarrow> byte list" where
  "cbc_decrypt_blocks block iv src =
     (if length src = 0 then []
      else (let c = take BlockSize src
            in xor_bytes (Block_Decrypt block c) iv @ cbc_decrypt_blocks block c (drop BlockSize src)))"
  by pat_completeness auto
termination
  by (relation "measure (\<lambda>(block, iv, src). length src)") auto

definition CBCEncrypter_CryptBlocks :: "cipher_Block \<Rightarrow> byte list \<Rightarrow> byte list \<Rightarrow> byte list option" where
  "CBCEncrypter_CryptBlocks block iv src =
     (if length iv \<noteq> BlockSize then None
      else if length src mod BlockSize \<noteq> 0 then None
      else Some (cbc_encrypt_blocks block iv src))"

definition CBCDecrypter_CryptBlocks :: "cipher_Block \<Rightarrow> byte list \<Rightarrow> byte list \<Rightarrow> byte list option" where
  "CBCDecrypter_CryptBlocks block iv src =
     (if length iv \<noteq> BlockSize then None
      else if length src mod BlockSize \<noteq> 0 then None
      else Some (cbc_decrypt_blocks block iv src))"

text \<open>
  \<open>rand.Reader\<close> is the list of bytes the source is still going to deliver;
  \<open>io.ReadFull\<close> takes the first \<open>n\<close> of them, and fails when the source cannot
  deliver that many.
\<close>

definition io_ReadFull :: "byte list \<Rightarrow> nat \<Rightarrow> byte list option \<times> byte list" where
  "io_ReadFull reader n =
     (if length reader < n then (None, []) else (Some (take n reader), drop n reader))"

section \<open>internal/crypto/crypto.go\<close>

text \<open>One constructor for every error the two functions build, in the order of the source.\<close>

datatype crypto_error =
    EncryptionKeyNot32Bytes
  | DecryptionKeyNot32Bytes
  | CreateCipherFailed
  | GenerateIVFailed
  | DecodeBase64Failed
  | TooShortForIVHex
  | DecodeIVHexFailed
  | IVLengthNotBlockSize
  | DecodeCiphertextHexFailed
  | CiphertextNotMultipleOfBlockSize
  | DecryptedPlaintextEmpty
  | InvalidPadding
  | InvalidPaddingBytes
  | PlaintextTooShortForPadding
  | Panic

definition byte_of_int :: "nat \<Rightarrow> byte" where
  "byte_of_int n = of_nat n"

text \<open>Lines 51 to 55 of \<open>Encrypt\<close>: the padding appended to the plaintext bytes.\<close>

definition Encrypt_padtext :: "byte list \<Rightarrow> byte list" where
  "Encrypt_padtext plainTextBytes =
     (let padding = BlockSize - length plainTextBytes mod BlockSize
      in replicate padding (byte_of_int padding))"

definition Encrypt :: "(byte list \<Rightarrow> cipher_Block) \<Rightarrow> string \<Rightarrow> byte list \<Rightarrow> byte list
    \<Rightarrow> (crypto_error + string) \<times> byte list" where
  "Encrypt aes plainText key rand_Reader =
     (if length key \<noteq> 32 then (Inl EncryptionKeyNot32Bytes, rand_Reader)
      else case aes_NewCipher aes key of
        None \<Rightarrow> (Inl CreateCipherFailed, rand_Reader)
      | Some block \<Rightarrow>
          (let plainTextBytes = bytes_of_string plainText;
               padtext = Encrypt_padtext plainTextBytes;
               plainTextBytes = plainTextBytes @ padtext
           in case io_ReadFull rand_Reader BlockSize of
                (None, rand_Reader') \<Rightarrow> (Inl GenerateIVFailed, rand_Reader')
              | (Some iv, rand_Reader') \<Rightarrow>
                  (case CBCEncrypter_CryptBlocks block iv plainTextBytes of
                     None \<Rightarrow> (Inl Panic, rand_Reader')
                   | Some cipherTextBytes \<Rightarrow>
                       (let ivHex = hex_EncodeToString iv;
                            cipherTextHex = hex_EncodeToString cipherTextBytes;
                            combined = ivHex @ cipherTextHex;
                            encoded = base64_EncodeToString (bytes_of_string combined)
                        in (Inr encoded, rand_Reader')))))"

text \<open>
  Lines 128 to 148 of \<open>Decrypt\<close>: the padding is checked and removed.
  The padding loop of \<open>Decrypt\<close> runs \<open>i\<close> from \<open>len - padding\<close> to \<open>len - 2\<close>.
  When \<open>padding\<close> exceeds the length, its first index is negative and the read panics,
  so the length test that follows the loop in the source is never the one that fails.
\<close>

definition Decrypt_unpad :: "byte list \<Rightarrow> crypto_error + string" where
  "Decrypt_unpad plainTextBytes =
     (if length plainTextBytes = 0 then Inl DecryptedPlaintextEmpty
      else (let padding = unat (last plainTextBytes)
            in if padding > BlockSize \<or> padding = 0 then Inl InvalidPadding
               else if length plainTextBytes < padding then Inl Panic
               else if \<not> list_all (\<lambda>i. plainTextBytes ! i = byte_of_int padding)
                            [length plainTextBytes - padding ..< length plainTextBytes - 1]
                    then Inl InvalidPaddingBytes
               else if length plainTextBytes < padding then Inl PlaintextTooShortForPadding
               else Inr (string_of_bytes (take (length plainTextBytes - padding) plainTextBytes))))"

definition Decrypt :: "(byte list \<Rightarrow> cipher_Block) \<Rightarrow> string \<Rightarrow> byte list \<Rightarrow> crypto_error + string" where
  "Decrypt aes cipherTextBase64 key =
     (if length key \<noteq> 32 then Inl DecryptionKeyNot32Bytes
      else case base64_DecodeString cipherTextBase64 of
        None \<Rightarrow> Inl DecodeBase64Failed
      | Some combinedBytes \<Rightarrow>
          (let combined = string_of_bytes combinedBytes
           in if length combined < 32 then Inl TooShortForIVHex
              else (let ivHex = take 32 combined;
                        cipherTextHex = drop 32 combined
                    in case hex_DecodeString ivHex of
                         None \<Rightarrow> Inl DecodeIVHexFailed
                       | Some iv \<Rightarrow>
                           if length iv \<noteq> BlockSize then Inl IVLengthNotBlockSize
                           else (case hex_DecodeString cipherTextHex of
                                   None \<Rightarrow> Inl DecodeCiphertextHexFailed
                                 | Some cipherTextBytes \<Rightarrow>
                                     (case aes_NewCipher aes key of
                                        None \<Rightarrow> Inl CreateCipherFailed
                                      | Some block \<Rightarrow>
                                          if length cipherTextBytes mod BlockSize \<noteq> 0
                                          then Inl CiphertextNotMultipleOfBlockSize
                                          else (case CBCDecrypter_CryptBlocks block iv cipherTextBytes of
                                                  None \<Rightarrow> Inl Panic
                                                | Some plainTextBytes \<Rightarrow> Decrypt_unpad plainTextBytes))))))"

text \<open>A key of 32 bytes and a random source for the examples.\<close>

definition example_key :: "byte list" where
  "example_key = [1, 2, 3, 4, 5, 6, 7, 8, 9, 10, 11, 12, 13, 14, 15, 16,
                  17, 18, 19, 20, 21, 22, 23, 24, 25, 26, 27, 28, 29, 30, 31, 32]"

definition example_random :: "byte list" where
  "example_random = [100, 101, 102, 103, 104, 105, 106, 107, 108, 109, 110, 111, 112, 113, 114, 115,
                     116, 117, 118, 119]"

section \<open>internal/models\<close>

text \<open>
  \<open>SharedWith\<close> is the Go map from user ID to permission level; reading a \<open>nil\<close> map
  behaves as reading an empty one, and the services replace a \<open>nil\<close> map before they
  write to it, so both are the empty map here. Times are natural numbers.
\<close>

record Vault =
  ID :: string
  OwnerID :: string
  Name :: string
  Description :: string
  Tags :: "string list"
  SharedWith :: "string \<rightharpoonup> string"
  CreatedAt :: nat
  UpdatedAt :: nat

record User =
  User_ID :: string
  Plan :: string

datatype detail = Text string | TextList "string list"

record AuditLog =
  Timestamp :: nat
  UserID :: string
  Action :: string
  TargetType :: string
  TargetID :: string
  Details :: "(string \<times> detail) list"

record CreateVaultRequest =
  Request_Name :: string
  Request_Description :: string
  Request_Tags :: "string list"

record UpdateVaultRequest =
  Update_Name :: "string option"
  Update_Description :: "string option"
  Update_Tags :: "string list option"

record ShareVaultRequest =
  UserIDs :: "string list"
  PermissionLevel :: string

section \<open>internal/db: the repositories\<close>

text \<open>
  The services reach storage through the interfaces \<open>VaultRepository\<close>,
  \<open>UserRepository\<close>, \<open>SecretRepository\<close> and \<open>AuditRepository\<close>. The world holds the
  vault, user and audit documents; the secrets of a vault are not part of it, and a call to the
  secret repository only succeeds or fails. A call to the backing store can fail for reasons outside the program; for
  each collection the world carries the outcomes of the coming calls (\<open>True\<close>: the call
  fails), consumed one per call, and a call beyond the list succeeds. \<open>new_ids\<close> are
  the document IDs the store is going to generate, \<open>now\<close> is the clock.
\<close>

record world =
  vaults :: "(string \<times> Vault) list"
  users :: "string \<rightharpoonup> User"
  audit_logs :: "AuditLog list"
  vault_faults :: "bool list"
  user_faults :: "bool list"
  secret_faults :: "bool list"
  audit_faults :: "bool list"
  new_ids :: "string list"
  now :: nat

datatype db_error = EmptyID | ErrNotFound | BackendFailure

definition next_fault :: "bool list \<Rightarrow> bool \<times> bool list" where
  "next_fault fs = (case fs of [] \<Rightarrow> (False, []) | f # fs' \<Rightarrow> (f, fs'))"

definition VaultRepository_GetByID :: "string \<Rightarrow> world \<Rightarrow> (db_error + Vault option) \<times> world" where
  "VaultRepository_GetByID vaultID w =
     (if vaultID = [] then (Inl EmptyID, w)
      else (let w' = w\<lparr>vault_faults := snd (next_fault (vault_faults w))\<rparr>
            in if fst (next_fault (vault_faults w)) then (Inl BackendFailure, w')
               else (case map_of (vaults w) vaultID of
                       None \<Rightarrow> (Inl ErrNotFound, w')
                     | Some vault \<Rightarrow> (Inr (Some (vault\<lparr>ID := vaultID\<rparr>)), w'))))"

definition VaultRepository_Create :: "Vault \<Rightarrow> world \<Rightarrow> (db_error + string) \<times> world" where
  "VaultRepository_Create vault w =
     (case new_ids w of
        [] \<Rightarrow> (Inl BackendFailure, w)
      | docID # ids \<Rightarrow>
          (let w' = w\<lparr>new_ids := ids, vault_faults := snd (next_fault (vault_faults w))\<rparr>
           in if fst (next_fault (vault_faults w)) \<or> map_of (vaults w) docID \<noteq> None
              then (Inl BackendFailure, w')
              else (Inr docID, w'\<lparr>vaults := vaults w @ [(docID, vault\<lparr>ID := docID\<rparr>)]\<rparr>)))"

text \<open>
  \<open>Update\<close> writes the vault with \<open>Set(ctx, vault, firestore.MergeAll)\<close>. The Firestore
  client accepts \<open>MergeAll\<close> for map data only, and \<open>vault\<close> is a struct: with the
  repository of this package the call is refused and \<open>Update\<close> returns its
  "failed to update" error, so that a run of the program is a run of the model in which the
  call to \<open>Update\<close> is a failing one. The model keeps the successful call that the
  interface \<open>VaultRepository\<close> describes: what holds in every world holds for the program
  and for every other implementation of the interface.
\<close>

definition VaultRepository_Update :: "Vault \<Rightarrow> world \<Rightarrow> db_error option \<times> world" where
  "VaultRepository_Update vault w =
     (if ID vault = [] then (Some EmptyID, w)
      else (let w' = w\<lparr>vault_faults := snd (next_fault (vault_faults w))\<rparr>
            in if fst (next_fault (vault_faults w)) then (Some BackendFailure, w')
               else (None, w'\<lparr>vaults := AList.update (ID vault) vault (vaults w)\<rparr>)))"

definition VaultRepository_CountByOwnerID :: "string \<Rightarrow> world \<Rightarrow> (db_error + nat) \<times> world" where
  "VaultRepository_CountByOwnerID ownerID w =
     (if ownerID = [] then (Inl EmptyID, w)
      else (let w' = w\<lparr>vault_faults := snd (next_fault (vault_faults w))\<rparr>
            in if fst (next_fault (vault_faults w)) then (Inl BackendFailure, w')
               else (Inr (length (filter (\<lambda>(docID, vault). OwnerID vault = ownerID) (vaults w))), w')))"

definition VaultRepository_Delete :: "string \<Rightarrow> world \<Rightarrow> db_error option \<times> world" where
  "VaultRepository_Delete vaultID w =
     (if vaultID = [] then (Some EmptyID, w)
      else (let w' = w\<lparr>vault_faults := snd (next_fault (vault_faults w))\<rparr>
            in if fst (next_fault (vault_faults w)) then (Some BackendFailure, w')
               else (None, w'\<lparr>vaults := AList.delete vaultID (vaults w)\<rparr>)))"

text \<open>
  Modelled from the spec: the implementation of \<open>SecretRepository\<close> is not among the sources.
  The spec treats the document store as an external collaborator; deleting the secrets of a
  vault either fails or succeeds, and the vault documents are not touched by it.
\<close>

definition SecretRepository_DeleteByVaultID :: "string \<Rightarrow> world \<Rightarrow> db_error option \<times> world" where
  "SecretRepository_DeleteByVaultID vaultID w =
     (let w' = w\<lparr>secret_faults := snd (next_fault (secret_faults w))\<rparr>
      in if fst (next_fault (secret_faults w)) then (Some BackendFailure, w') else (None, w'))"

definition UserRepository_GetByID :: "string \<Rightarrow> world \<Rightarrow> (db_error + User option) \<times> world" where
  "UserRepository_GetByID userID w =
     (if userID = [] then (Inl EmptyID, w)
      else (let w' = w\<lparr>user_faults := snd (next_fault (user_faults w))\<rparr>
            in if fst (next_fault (user_faults w)) then (Inl BackendFailure, w')
               else (case users w userID of
                       None \<Rightarrow> (Inl ErrNotFound, w')
                     | Some user \<Rightarrow> (Inr (Some (user\<lparr>User_ID := userID\<rparr>)), w'))))"

text \<open>
  Modelled from the spec: the implementation of \<open>AuditRepository\<close> is not among the sources.
  The spec describes this collaborator by its interface, "append a log record": a call either
  fails or appends the record to the audit log.
\<close>

definition AuditRepository_Create :: "AuditLog \<Rightarrow> world \<Rightarrow> db_error option \<times> world" where
  "AuditRepository_Create logEntry w =
     (let w' = w\<lparr>audit_faults := snd (next_fault (audit_faults w))\<rparr>
      in if fst (next_fault (audit_faults w)) then (Some BackendFailure, w')
         else (None, w'\<lparr>audit_logs := audit_logs w @ [logEntry]\<rparr>))"

section \<open>internal/core: the audit service\<close>

text \<open>A service field is \<open>True\<close> when the collaborator is set, \<open>False\<close> when it is \<open>nil\<close>.\<close>

record auditService =
  auditRepo :: bool

datatype audit_error = AuditRepositoryNotInitialized | CreateAuditLogFailed db_error

definition CreateAuditLog :: "auditService \<Rightarrow> AuditLog \<Rightarrow> world \<Rightarrow> audit_error option \<times> world" where
  "CreateAuditLog s logEntry w =
     (if \<not> auditRepo s then (Some AuditRepositoryNotInitialized, w)
      else case AuditRepository_Create logEntry w of
        (Some err, w') \<Rightarrow> (Some (CreateAuditLogFailed err), w')
      | (None, w') \<Rightarrow> (None, w'))"

section \<open>internal/core/vault\_service.go\<close>

text \<open>
  The sentinel errors of the package are constructors; an error wrapped with \<open>%w\<close> is
  the sentinel it wraps. The errors built in place by \<open>errors.New\<close> and \<open>fmt.Errorf\<close>
  have one constructor each.
\<close>

datatype core_error =
    ErrVaultNotFound
  | ErrForbiddenAccess
  | ErrVaultLimitReached
  | ErrUserNotFound
  | ErrCannotShareWithSelf
  | ErrInvalidPermissionLevel
  | ErrVaultUpdateFailed
  | ErrVaultDeletionFailed
  | ErrSecretDeletionFailed
  | ComponentNotInitialized
  | RepositoryFailure db_error
  | NoValidTargetUsers
  | NotCurrentlyShared
  | CannotRemoveOwnersAccess

text \<open>The audit service of a vault service is \<open>None\<close> when it is \<open>nil\<close>.\<close>

record vaultService =
  vaultRepo :: bool
  secretRepo :: bool
  userRepo :: bool
  auditService :: "auditService option"

definition checkVaultLimit :: "string \<Rightarrow> nat \<Rightarrow> core_error option" where
  "checkVaultLimit userPlan currentVaultCount =
     (let limit = (case map_of [(''FREE'', 1), (''PRO'', 10), (''ENTERPRISE'', 1000)] userPlan of
                     None \<Rightarrow> 1
                   | Some l \<Rightarrow> l)
      in if currentVaultCount \<ge> limit then Some ErrVaultLimitReached else None)"

definition CreateVault :: "vaultService \<Rightarrow> string \<Rightarrow> CreateVaultRequest \<Rightarrow> world
    \<Rightarrow> (core_error + Vault) \<times> world" where
  "CreateVault s userID req w =
     (if \<not> userRepo s \<or> \<not> vaultRepo s \<or> auditService s = None then (Inl ComponentNotInitialized, w)
      else case UserRepository_GetByID userID w of
        (Inl err, w1) \<Rightarrow> (Inl (RepositoryFailure err), w1)
      | (Inr None, w1) \<Rightarrow> (Inl ErrUserNotFound, w1)
      | (Inr (Some user), w1) \<Rightarrow>
          (case VaultRepository_CountByOwnerID userID w1 of
             (Inl err, w2) \<Rightarrow> (Inl (RepositoryFailure err), w2)
           | (Inr currentVaultCount, w2) \<Rightarrow>
               (case checkVaultLimit (Plan user) currentVaultCount of
                  Some err \<Rightarrow> (Inl err, w2)
                | None \<Rightarrow>
                    (let newVault = \<lparr>ID = [], OwnerID = userID, Name = Request_Name req,
                                     Description = Request_Description req, Tags = Request_Tags req,
                                     SharedWith = Map.empty, CreatedAt = now w2, UpdatedAt = now w2\<rparr>
                     in case VaultRepository_Create newVault w2 of
                          (Inl err, w3) \<Rightarrow> (Inl (RepositoryFailure err), w3)
                        | (Inr vaultID, w3) \<Rightarrow>
                            (let newVault = newVault\<lparr>ID := vaultID\<rparr>;
                                 auditLogEntry = \<lparr>Timestamp = now w3, UserID = userID,
                                    Action = ''VAULT_CREATE'', TargetType = ''VAULT'',
                                    TargetID = ID newVault,
                                    Details = [(''name'', Text (Name newVault)),
                                               (''description'', Text (Description newVault)),
                                               (''tags'', TextList (Tags newVault))]\<rparr>
                             in (Inr newVault, snd (CreateAuditLog (the (auditService s)) auditLogEntry w3)))))))"

definition GetVaultByID :: "vaultService \<Rightarrow> string \<Rightarrow> string \<Rightarrow> world \<Rightarrow> (core_error + Vault) \<times> world" where
  "GetVaultByID s userID vaultID w =
     (if \<not> vaultRepo s then (Inl ComponentNotInitialized, w)
      else case VaultRepository_GetByID vaultID w of
        (Inl err, w1) \<Rightarrow> (Inl (RepositoryFailure err), w1)
      | (Inr None, w1) \<Rightarrow> (Inl ErrVaultNotFound, w1)
      | (Inr (Some vault), w1) \<Rightarrow>
          if OwnerID vault \<noteq> userID
          then (case SharedWith vault userID of
                  None \<Rightarrow> (Inl ErrForbiddenAccess, w1)
                | Some permission \<Rightarrow> (Inr vault, w1))
          else (Inr vault, w1))"

definition UpdateVault :: "vaultService \<Rightarrow> string \<Rightarrow> string \<Rightarrow> UpdateVaultRequest \<Rightarrow> world
    \<Rightarrow> (core_error + Vault) \<times> world" where
  "UpdateVault s userID vaultID req w =
     (if \<not> vaultRepo s \<or> auditService s = None then (Inl ComponentNotInitialized, w)
      else case VaultRepository_GetByID vaultID w of
        (Inl err, w1) \<Rightarrow> (Inl (RepositoryFailure err), w1)
      | (Inr None, w1) \<Rightarrow> (Inl ErrVaultNotFound, w1)
      | (Inr (Some existingVault), w1) \<Rightarrow>
          if OwnerID existingVault \<noteq> userID then (Inl ErrForbiddenAccess, w1)
          else (let existingVault =
                      (case Update_Name req of
                         None \<Rightarrow> existingVault
                       | Some name \<Rightarrow> existingVault\<lparr>Name := name\<rparr>);
                    existingVault =
                      (case Update_Description req of
                         None \<Rightarrow> existingVault
                       | Some description \<Rightarrow> existingVault\<lparr>Description := description\<rparr>);
                    existingVault =
                      (case Update_Tags req of
                         None \<Rightarrow> existingVault
                       | Some tags \<Rightarrow> existingVault\<lparr>Tags := tags\<rparr>);
                    existingVault = existingVault\<lparr>UpdatedAt := now w1\<rparr>
                in case VaultRepository_Update existingVault w1 of
                     (Some err, w2) \<Rightarrow> (Inl ErrVaultUpdateFailed, w2)
                   | (None, w2) \<Rightarrow>
                       (Inr existingVault, snd (CreateAuditLog (the (auditService s))
                          \<lparr>Timestamp = now w2, UserID = userID, Action = ''VAULT_UPDATE'',
                           TargetType = ''VAULT'', TargetID = ID existingVault,
                           Details = [(''updated_name'', Text (Name existingVault)),
                                      (''updated_description'', Text (Description existingVault)),
                                      (''updated_tags'', TextList (Tags existingVault))]\<rparr> w2))))"

definition DeleteVault :: "vaultService \<Rightarrow> string \<Rightarrow> string \<Rightarrow> world \<Rightarrow> core_error option \<times> world" where
  "DeleteVault s userID vaultID w =
     (if \<not> vaultRepo s \<or> \<not> secretRepo s \<or> auditService s = None then (Some ComponentNotInitialized, w)
      else case VaultRepository_GetByID vaultID w of
        (Inl err, w1) \<Rightarrow> (Some (RepositoryFailure err), w1)
      | (Inr None, w1) \<Rightarrow> (Some ErrVaultNotFound, w1)
      | (Inr (Some vault), w1) \<Rightarrow>
          if OwnerID vault \<noteq> userID then (Some ErrForbiddenAccess, w1)
          else (case SecretRepository_DeleteByVaultID vaultID w1 of
                  (Some err, w2) \<Rightarrow> (Some ErrSecretDeletionFailed, w2)
                | (None, w2) \<Rightarrow>
                    (case VaultRepository_Delete vaultID w2 of
                       (Some err, w3) \<Rightarrow> (Some ErrVaultDeletionFailed, w3)
                     | (None, w3) \<Rightarrow>
                         (None, snd (CreateAuditLog (the (auditService s))
                            \<lparr>Timestamp = now w3, UserID = userID, Action = ''VAULT_DELETE'',
                             TargetType = ''VAULT'', TargetID = vaultID,
                             Details = [(''deleted_vault_name'', Text (Name vault))]\<rparr> w3)))))"

text \<open>
  The loop of \<open>ShareVault\<close> over \<open>req.UserIDs\<close>: it carries the vault being changed,
  the list \<open>sharedToUserIDs\<close> and the world (each look-up of a target is a call to the
  user repository).
\<close>

fun ShareVault_loop :: "string \<Rightarrow> string \<Rightarrow> string list \<Rightarrow> Vault \<Rightarrow> string list \<Rightarrow> world
    \<Rightarrow> Vault \<times> string list \<times> world" where
  "ShareVault_loop ownerID permissionLevel [] vault sharedToUserIDs w = (vault, sharedToUserIDs, w)"
| "ShareVault_loop ownerID permissionLevel (targetUserID # rest) vault sharedToUserIDs w =
     (if targetUserID = ownerID
      then ShareVault_loop ownerID permissionLevel rest vault sharedToUserIDs w
      else case UserRepository_GetByID targetUserID w of
        (Inr (Some targetUser), w') \<Rightarrow>
          ShareVault_loop ownerID permissionLevel rest
            (vault\<lparr>SharedWith := (SharedWith vault)(targetUserID \<mapsto> permissionLevel)\<rparr>)
            (sharedToUserIDs @ [targetUserID]) w'
      | (_, w') \<Rightarrow> ShareVault_loop ownerID permissionLevel rest vault sharedToUserIDs w')"

definition VAULT_SHARE_entry :: "string \<Rightarrow> string \<Rightarrow> string \<Rightarrow> nat \<Rightarrow> string \<Rightarrow> AuditLog" where
  "VAULT_SHARE_entry ownerID vaultID permissionLevel time sharedUserID =
     \<lparr>Timestamp = time, UserID = ownerID, Action = ''VAULT_SHARE'', TargetType = ''VAULT'',
      TargetID = vaultID,
      Details = [(''shared_with_user_id'', Text sharedUserID),
                 (''permission_level'', Text permissionLevel)]\<rparr>"

fun ShareVault_audit :: "auditService \<Rightarrow> string \<Rightarrow> string \<Rightarrow> string \<Rightarrow> string list \<Rightarrow> world
    \<Rightarrow> world" where
  "ShareVault_audit audit ownerID vaultID permissionLevel [] w = w"
| "ShareVault_audit audit ownerID vaultID permissionLevel (sharedUserID # rest) w =
     ShareVault_audit audit ownerID vaultID permissionLevel rest
       (snd (CreateAuditLog audit
               (VAULT_SHARE_entry ownerID vaultID permissionLevel (now w) sharedUserID) w))"

definition ShareVault :: "vaultService \<Rightarrow> string \<Rightarrow> string \<Rightarrow> ShareVaultRequest \<Rightarrow> world
    \<Rightarrow> core_error option \<times> world" where
  "ShareVault s ownerID vaultID req w =
     (if \<not> vaultRepo s \<or> \<not> userRepo s \<or> auditService s = None then (Some ComponentNotInitialized, w)
      else case VaultRepository_GetByID vaultID w of
        (Inl err, w1) \<Rightarrow> (Some (RepositoryFailure err), w1)
      | (Inr None, w1) \<Rightarrow> (Some ErrVaultNotFound, w1)
      | (Inr (Some vault), w1) \<Rightarrow>
          if OwnerID vault \<noteq> ownerID then (Some ErrForbiddenAccess, w1)
          else if PermissionLevel req \<noteq> ''read'' \<and> PermissionLevel req \<noteq> ''write''
          then (Some ErrInvalidPermissionLevel, w1)
          else (case ShareVault_loop ownerID (PermissionLevel req) (UserIDs req) vault [] w1 of
                  (vault, sharedToUserIDs, w2) \<Rightarrow>
                    if length sharedToUserIDs = 0 \<and> length (UserIDs req) > 0
                    then (if length (UserIDs req) = 1 \<and> UserIDs req ! 0 = ownerID
                          then (Some ErrCannotShareWithSelf, w2)
                          else (Some NoValidTargetUsers, w2))
                    else if length sharedToUserIDs = 0 then (None, w2)
                    else (case VaultRepository_Update (vault\<lparr>UpdatedAt := now w2\<rparr>) w2 of
                            (Some err, w3) \<Rightarrow> (Some ErrVaultUpdateFailed, w3)
                          | (None, w3) \<Rightarrow>
                              (None, ShareVault_audit (the (auditService s)) ownerID vaultID
                                       (PermissionLevel req) sharedToUserIDs w3))))"

definition UpdateSharePermissions :: "vaultService \<Rightarrow> string \<Rightarrow> string \<Rightarrow> string \<Rightarrow> string \<Rightarrow> world
    \<Rightarrow> core_error option \<times> world" where
  "UpdateSharePermissions s ownerID vaultID targetUserID permissionLevel w =
     (if \<not> vaultRepo s \<or> auditService s = None then (Some ComponentNotInitialized, w)
      else case VaultRepository_GetByID vaultID w of
        (Inl err, w1) \<Rightarrow> (Some (RepositoryFailure err), w1)
      | (Inr None, w1) \<Rightarrow> (Some ErrVaultNotFound, w1)
      | (Inr (Some vault), w1) \<Rightarrow>
          if OwnerID vault \<noteq> ownerID then (Some ErrForbiddenAccess, w1)
          else if targetUserID = ownerID then (Some ErrCannotShareWithSelf, w1)
          else if SharedWith vault targetUserID = None then (Some NotCurrentlyShared, w1)
          else if permissionLevel \<noteq> ''read'' \<and> permissionLevel \<noteq> ''write''
          then (Some ErrInvalidPermissionLevel, w1)
          else (case VaultRepository_Update
                       (vault\<lparr>SharedWith := (SharedWith vault)(targetUserID \<mapsto> permissionLevel),
                              UpdatedAt := now w1\<rparr>) w1 of
                  (Some err, w2) \<Rightarrow> (Some ErrVaultUpdateFailed, w2)
                | (None, w2) \<Rightarrow>
                    (None, snd (CreateAuditLog (the (auditService s))
                       \<lparr>Timestamp = now w2, UserID = ownerID,
                        Action = ''VAULT_SHARE_UPDATE_PERMISSION'', TargetType = ''VAULT'',
                        TargetID = vaultID,
                        Details = [(''target_user_id'', Text targetUserID),
                                   (''new_permission_level'', Text permissionLevel)]\<rparr> w2))))"

definition RemoveShare :: "vaultService \<Rightarrow> string \<Rightarrow> string \<Rightarrow> string \<Rightarrow> world
    \<Rightarrow> core_error option \<times> world" where
  "RemoveShare s ownerID vaultID targetUserID w =
     (if \<not> vaultRepo s \<or> auditService s = None then (Some ComponentNotInitialized, w)
      else case VaultRepository_GetByID vaultID w of
        (Inl err, w1) \<Rightarrow> (Some (RepositoryFailure err), w1)
      | (Inr None, w1) \<Rightarrow> (Some ErrVaultNotFound, w1)
      | (Inr (Some vault), w1) \<Rightarrow>
          if OwnerID vault \<noteq> ownerID then (Some ErrForbiddenAccess, w1)
          else if targetUserID = ownerID then (Some CannotRemoveOwnersAccess, w1)
          else if SharedWith vault targetUserID = None then (Some NotCurrentlyShared, w1)
          else (case VaultRepository_Update
                       (vault\<lparr>SharedWith := (SharedWith vault)(targetUserID := None),
                              UpdatedAt := now w1\<rparr>) w1 of
                  (Some err, w2) \<Rightarrow> (Some ErrVaultUpdateFailed, w2)
                | (None, w2) \<Rightarrow>
                    (None, snd (CreateAuditLog (the (auditService s))
                       \<lparr>Timestamp = now w2, UserID = ownerID,
                        Action = ''VAULT_SHARE_REMOVE'', TargetType = ''VAULT'',
                        TargetID = vaultID,
                        Details = [(''removed_user_id'', Text targetUserID)]\<rparr> w2))))"

section \<open>internal/core/secret\_service.go\<close>

record secretService =
  secretService_vaultRepo :: bool

definition checkVaultAccess :: "secretService \<Rightarrow> string \<Rightarrow> string \<Rightarrow> string \<Rightarrow> world
    \<Rightarrow> (core_error + Vault) \<times> world" where
  "checkVaultAccess s userID vaultID requiredPermissionLevel w =
     (if \<not> secretService_vaultRepo s then (Inl ComponentNotInitialized, w)
      else case VaultRepository_GetByID vaultID w of
        (Inl err, w1) \<Rightarrow> (Inl (RepositoryFailure err), w1)
      | (Inr None, w1) \<Rightarrow> (Inl ErrVaultNotFound, w1)
      | (Inr (Some vault), w1) \<Rightarrow>
          if OwnerID vault = userID then (Inr vault, w1)
          else (case SharedWith vault userID of
                  None \<Rightarrow> (Inl ErrForbiddenAccess, w1)
                | Some permission \<Rightarrow>
                    if requiredPermissionLevel = ''read'' \<and>
                       (permission = ''read'' \<or> permission = ''write'')
                    then (Inr vault, w1)
                    else if requiredPermissionLevel = ''write'' \<and> permission = ''write''
                    then (Inr vault, w1)
                    else (Inl ErrForbiddenAccess, w1)))"

section \<open>The owner is never a key of the sharing map\<close>

definition owner_not_shared :: "Vault \<Rightarrow> bool" where
  "owner_not_shared vault \<longleftrightarrow> SharedWith vault (OwnerID vault) = None"

definition owners_not_shared :: "world \<Rightarrow> bool" where
  "owners_not_shared w \<longleftrightarrow> list_all (\<lambda>(docID, vault). owner_not_shared vault) (vaults w)"

section \<open>A small world\<close>

text \<open>
  One vault \<open>v1\<close>, owned by \<open>alice\<close> and shared with \<open>bob\<close> (read), \<open>carol\<close>
  (write) and \<open>dave\<close>, whose stored level is neither; \<open>erin\<close> is a user without
  access. No call to the store fails.
\<close>

definition example_vault :: Vault where
  "example_vault =
     \<lparr>ID = [], OwnerID = ''alice'', Name = ''keys'', Description = [], Tags = [],
      SharedWith = [''bob'' \<mapsto> ''read'', ''carol'' \<mapsto> ''write'', ''dave'' \<mapsto> ''admin''],
      CreatedAt = 1, UpdatedAt = 1\<rparr>"

definition example_users :: "string \<rightharpoonup> User" where
  "example_users =
     [''alice'' \<mapsto> \<lparr>User_ID = [], Plan = ''PRO''\<rparr>,
      ''bob'' \<mapsto> \<lparr>User_ID = [], Plan = ''FREE''\<rparr>,
      ''carol'' \<mapsto> \<lparr>User_ID = [], Plan = ''FREE''\<rparr>,
      ''dave'' \<mapsto> \<lparr>User_ID = [], Plan = ''FREE''\<rparr>,
      ''erin'' \<mapsto> \<lparr>User_ID = [], Plan = ''FREE''\<rparr>]"

definition example_world :: world where
  "example_world =
     \<lparr>vaults = [(''v1'', example_vault)], users = example_users, audit_logs = [],
      vault_faults = [], user_faults = [], secret_faults = [], audit_faults = [],
      new_ids = [''v2''], now = 2\<rparr>"


definition example_vaultService :: vaultService where
  "example_vaultService =
     \<lparr>vaultRepo = True, secretRepo = True, userRepo = True,
      auditService = Some \<lparr>auditRepo = True\<rparr>\<rparr>"

definition example_secretService :: secretService where
  "example_secretService = \<lparr>secretService_vaultRepo = True\<rparr>"



section \<open>Properties of the codecs\<close>

lemma char_of_byte_of_char: "char_of_byte (byte_of_char c) = c"
proof -
  have "(of_char c :: byte) = of_nat (of_char c)"
    by (rule of_nat_of_char[symmetric])
  hence "unat (of_char c :: byte) = of_char c mod 256"
    by (simp add: unat_of_nat)
  thus ?thesis by (simp add: char_of_byte_def byte_of_char_def)
qed

lemma byte_of_char_of_byte: "byte_of_char (char_of_byte b) = b"
proof -
  have "(of_char (char_of (unat b)) :: byte) = of_nat (of_char (char_of (unat b)))"
    by (rule of_nat_of_char[symmetric])
  also have "\<dots> = of_nat (unat b mod 256)" by simp
  also have "\<dots> = b" using unsigned_less[of b, where ?'a=nat] by simp
  finally show ?thesis by (simp add: char_of_byte_def byte_of_char_def)
qed

lemma string_of_bytes_of_string: "string_of_bytes (bytes_of_string s) = s"
  by (induction s) (simp_all add: string_of_bytes_def bytes_of_string_def char_of_byte_of_char)

lemma bytes_of_string_of_bytes: "bytes_of_string (string_of_bytes b) = b"
  by (induction b) (simp_all add: string_of_bytes_def bytes_of_string_def byte_of_char_of_byte)

lemma nibble_cases: "n < 16 \<Longrightarrow> n \<in> {0,1,2,3,4,5,6,7,8,9,10,11,12,13,14,15::nat}"
  by (simp; arith)

lemma fromHexChar_hextable: "n < 16 \<Longrightarrow> fromHexChar (hextable ! n) = Some (of_nat n)"
  using nibble_cases[of n]
  by (auto simp: fromHexChar_def hextable_def byte_of_char_def less_eq_char_def)

lemma byte_split: "push_bit 4 (drop_bit 4 v) OR (v AND 0x0f) = (v::byte)"
proof -
  have "(v AND 0x0f) = take_bit 4 v"
    using take_bit_eq_mask[of 4 v] by (simp add: mask_eq_exp_minus_1)
  thus ?thesis by (simp add: bit_eq_iff bit_simps) (metis le_add_diff_inverse not_le)
qed

lemma unat_high_nibble: "unat (drop_bit 4 (v::byte)) < 16"
proof -
  have "unat (drop_bit 4 v) = unat v div 16"
    by (simp add: drop_bit_eq_div unat_div)
  thus ?thesis using unsigned_less[of v, where ?'a=nat] by simp
qed

lemma unat_low_nibble: "unat ((v::byte) AND 0x0f) < 16"
proof -
  have "(v AND 0x0f) = take_bit 4 v"
    using take_bit_eq_mask[of 4 v] by (simp add: mask_eq_exp_minus_1)
  hence "unat (v AND 0x0f) = unat v mod 16"
    by (simp only: unsigned_take_bit_eq) (simp add: take_bit_eq_mod)
  thus ?thesis by simp
qed

lemma hex_roundtrip: "hex_DecodeString (hex_EncodeToString bs) = Some bs"
  by (induction bs) (simp_all add: fromHexChar_hextable unat_high_nibble unat_low_nibble byte_split)

lemma length_hex: "length (hex_EncodeToString bs) = 2 * length bs"
  by (induction bs) simp_all

lemma and_63_nat: "(x::nat) AND 0x3F = x mod 64"
  using take_bit_eq_mask[of 6 x] by (simp add: mask_eq_exp_minus_1 take_bit_eq_mod)

lemma index_of_nth: "distinct xs \<Longrightarrow> n < length xs \<Longrightarrow> index_of (xs ! n) xs i = Some (i + n)"
proof (induction xs arbitrary: n i)
  case Nil thus ?case by simp
next
  case (Cons x xs)
  show ?case
  proof (cases n)
    case 0 thus ?thesis by simp
  next
    case (Suc m)
    with Cons.prems have "xs ! m \<in> set xs" by simp
    with Cons.prems have "x \<noteq> xs ! m" by auto
    with Cons Suc show ?thesis by simp
  qed
qed

lemma distinct_encodeStd: "distinct encodeStd"
  by (simp add: encodeStd_def)

lemma length_encodeStd: "length encodeStd = 64"
  by (simp add: encodeStd_def)

lemma decodeMap_encode_digit: "decodeMap (encode_digit val) = Some (val mod 64)"
  by (simp add: decodeMap_def encode_digit_def and_63_nat index_of_nth distinct_encodeStd length_encodeStd)

lemma pad_not_digit: "decodeMap (CHR ''='') = None"
  by (simp add: decodeMap_def encodeStd_def)

lemma full_quantum_byte0: "byte_of_uint (drop_bit 16 (push_bit 16 (unat a) OR push_bit 8 (unat b) OR unat c)) = a"
  for a b c :: byte
  unfolding byte_of_uint_def
  by (rule bit_word_eqI) (auto simp add: bit_simps dest: bit_imp_le_length)

lemma full_quantum_byte1: "byte_of_uint (drop_bit 8 (push_bit 16 (unat a) OR push_bit 8 (unat b) OR unat c)) = b"
  for a b c :: byte
  unfolding byte_of_uint_def
  by (rule bit_word_eqI) (auto simp add: bit_simps dest: bit_imp_le_length)

lemma full_quantum_byte2: "byte_of_uint (push_bit 16 (unat a) OR push_bit 8 (unat b) OR unat c) = c"
  for a b c :: byte
  unfolding byte_of_uint_def
  by (rule bit_word_eqI) (auto simp add: bit_simps dest: bit_imp_le_length)

lemma sextets:
  "push_bit 18 (take_bit 6 (drop_bit 18 v)) OR push_bit 12 (take_bit 6 (drop_bit 12 v)) OR
   push_bit 6 (take_bit 6 (drop_bit 6 v)) OR take_bit 6 v = take_bit 24 (v::nat)"
proof (rule bit_eqI)
  fix n :: nat
  consider "n < 6" | "6 \<le> n" "n < 12" | "12 \<le> n" "n < 18" | "18 \<le> n" "n < 24" | "24 \<le> n"
    by linarith
  thus "bit (push_bit 18 (take_bit 6 (drop_bit 18 v)) OR push_bit 12 (take_bit 6 (drop_bit 12 v)) OR
             push_bit 6 (take_bit 6 (drop_bit 6 v)) OR take_bit 6 v) n = bit (take_bit 24 v) n"
    by cases (simp_all add: bit_simps, linarith+)
qed

lemma one_byte_quantum:
  "byte_of_uint (drop_bit 16 (push_bit 18 (take_bit 6 (drop_bit 18 (push_bit 16 (unat a)))) OR
      push_bit 12 (take_bit 6 (drop_bit 12 (push_bit 16 (unat a)))))) = a"
  for a :: byte
  unfolding byte_of_uint_def
proof (rule bit_word_eqI)
  fix n :: nat
  assume "n < LENGTH(8)"
  then consider "n < 2" | "2 \<le> n" "n < 8" by fastforce
  thus "bit (word_of_nat (drop_bit 16 (push_bit 18 (take_bit 6 (drop_bit 18 (push_bit 16 (unat a)))) OR
      push_bit 12 (take_bit 6 (drop_bit 12 (push_bit 16 (unat a)))))) :: byte) n = bit a n"
    by cases (auto simp add: bit_simps)
qed

lemma two_byte_quantum_val:
  "push_bit 18 (take_bit 6 (drop_bit 18 v)) OR push_bit 12 (take_bit 6 (drop_bit 12 v)) OR
   push_bit 6 (take_bit 6 (drop_bit 6 v)) = push_bit 6 (take_bit 18 (drop_bit 6 (v::nat)))"
proof (rule bit_eqI)
  fix n :: nat
  consider "n < 6" | "6 \<le> n" "n < 12" | "12 \<le> n" "n < 18" | "18 \<le> n" "n < 24" | "24 \<le> n"
    by linarith
  thus "bit (push_bit 18 (take_bit 6 (drop_bit 18 v)) OR push_bit 12 (take_bit 6 (drop_bit 12 v)) OR
             push_bit 6 (take_bit 6 (drop_bit 6 v))) n
        = bit (push_bit 6 (take_bit 18 (drop_bit 6 (v::nat)))) n"
    by cases (simp_all add: bit_simps, linarith+)
qed

lemma two_byte_quantum_byte0:
  "byte_of_uint (drop_bit 16 (push_bit 6 (take_bit 18 (drop_bit 6 (push_bit 16 (unat a) OR push_bit 8 (unat b)))))) = a"
  for a b :: byte
  unfolding byte_of_uint_def
  by (rule bit_word_eqI) (auto simp add: bit_simps dest: bit_imp_le_length)

lemma two_byte_quantum_byte1:
  "byte_of_uint (drop_bit 8 (push_bit 6 (take_bit 18 (drop_bit 6 (push_bit 16 (unat a) OR push_bit 8 (unat b)))))) = b"
  for a b :: byte
  unfolding byte_of_uint_def
  by (rule bit_word_eqI) (auto simp add: bit_simps dest: bit_imp_le_length)

lemma full_quantum_24_bits: "take_bit 24 (push_bit 16 (unat a) OR push_bit 8 (unat b) OR unat c) =
    push_bit 16 (unat a) OR push_bit 8 (unat b) OR unat c"
  for a b c :: byte
  by (rule bit_eqI) (auto simp add: bit_simps dest: bit_imp_le_length)

lemma decodeMap_encode_digit_take_bit: "decodeMap (encode_digit val) = Some (take_bit 6 val)"
  by (simp add: decodeMap_encode_digit take_bit_eq_mod)

lemma decodeQuanta_full:
  "decodeQuanta (encode_digit (drop_bit 18 v) # encode_digit (drop_bit 12 v) #
                 encode_digit (drop_bit 6 v) # encode_digit v # src) =
   (case decodeQuanta src of
      None \<Rightarrow> None
    | Some dst \<Rightarrow> Some (byte_of_uint (drop_bit 16 (take_bit 24 v)) #
                         byte_of_uint (drop_bit 8 (take_bit 24 v)) #
                         byte_of_uint (take_bit 24 v) # dst))"
  by (simp only: decodeQuanta.simps decodeMap_encode_digit_take_bit option.case Let_def sextets)

lemma decodeQuanta_two_bytes:
  "decodeQuanta [encode_digit (drop_bit 18 v), encode_digit (drop_bit 12 v),
                 encode_digit (drop_bit 6 v), CHR ''=''] =
   Some [byte_of_uint (drop_bit 16 (push_bit 6 (take_bit 18 (drop_bit 6 v)))),
         byte_of_uint (drop_bit 8 (push_bit 6 (take_bit 18 (drop_bit 6 v))))]"
  by (simp only: decodeQuanta.simps decodeMap_encode_digit_take_bit pad_not_digit option.case Let_def
        two_byte_quantum_val simp_thms if_True)

lemma decodeQuanta_one_byte:
  "decodeQuanta [encode_digit (drop_bit 18 v), encode_digit (drop_bit 12 v), CHR ''='', CHR ''=''] =
   Some [byte_of_uint (drop_bit 16 (push_bit 18 (take_bit 6 (drop_bit 18 v)) OR
           push_bit 12 (take_bit 6 (drop_bit 12 v))))]"
  by (simp only: decodeQuanta.simps decodeMap_encode_digit_take_bit pad_not_digit option.case Let_def
        simp_thms if_True)

lemma decodeQuanta_EncodeToString:
  "decodeQuanta (base64_EncodeToString bs) = Some bs"
proof (induction bs rule: base64_EncodeToString.induct)
  case 1
  show ?case by simp
next
  case (2 s0)
  show ?case
    by (simp only: base64_EncodeToString.simps Let_def decodeQuanta_one_byte one_byte_quantum)
next
  case (3 s0 s1)
  show ?case
    by (simp only: base64_EncodeToString.simps Let_def decodeQuanta_two_bytes two_byte_quantum_byte0 two_byte_quantum_byte1)
next
  case (4 s0 s1 s2 src)
  thus ?case
    by (simp only: base64_EncodeToString.simps Let_def decodeQuanta_full full_quantum_24_bits full_quantum_byte0 full_quantum_byte1 full_quantum_byte2
          option.case)
qed

lemma length_xor_bytes: "length (xor_bytes x y) = min (length x) (length y)"
  by (simp add: xor_bytes_def)

lemma xor_bytes_cancel: "length x = length y \<Longrightarrow> xor_bytes (xor_bytes x y) y = x"
  unfolding xor_bytes_def
  by (rule nth_equalityI) (simp_all add: xor.assoc)

lemma length_cbc_encrypt_blocks:
  "block_cipher block \<Longrightarrow> length iv = BlockSize \<Longrightarrow> length src mod BlockSize = 0
   \<Longrightarrow> length (cbc_encrypt_blocks block iv src) = length src"
proof (induction block iv src rule: cbc_encrypt_blocks.induct)
  case (1 block iv src)
  show ?case
  proof (cases "length src = 0")
    case True
    thus ?thesis by simp
  next
    case False
    with "1.prems" have ge: "BlockSize \<le> length src"
      by (metis mod_less neq0_conv not_le)
    define dst where "dst = Block_Encrypt block (xor_bytes (take BlockSize src) iv)"
    have len: "length (xor_bytes (take BlockSize src) iv) = BlockSize"
      using ge "1.prems" by (simp add: length_xor_bytes)
    hence dst: "length dst = BlockSize"
      using "1.prems"(1) by (simp add: block_cipher_def dst_def)
    have rest: "length (drop BlockSize src) mod BlockSize = 0"
      using ge "1.prems"(3) by (metis le_mod_geq length_drop)
    have "length (cbc_encrypt_blocks block dst (drop BlockSize src)) = length (drop BlockSize src)"
      using "1.IH"[OF False dst_def "1.prems"(1) dst rest] .
    thus ?thesis
      using False ge dst
      by (subst cbc_encrypt_blocks.simps) (simp add: Let_def dst_def[symmetric])
  qed
qed

lemma cbc_roundtrip:
  "block_cipher block \<Longrightarrow> length iv = BlockSize \<Longrightarrow> length src mod BlockSize = 0
   \<Longrightarrow> cbc_decrypt_blocks block iv (cbc_encrypt_blocks block iv src) = src"
proof (induction block iv src rule: cbc_encrypt_blocks.induct)
  case (1 block iv src)
  show ?case
  proof (cases "length src = 0")
    case True
    thus ?thesis by simp
  next
    case False
    with "1.prems" have ge: "BlockSize \<le> length src"
      by (metis mod_less neq0_conv not_le)
    define x where "x = xor_bytes (take BlockSize src) iv"
    define dst where "dst = Block_Encrypt block x"
    have len: "length x = BlockSize"
      using ge "1.prems" by (simp add: length_xor_bytes x_def)
    hence dst: "length dst = BlockSize" and dec: "Block_Decrypt block dst = x"
      using "1.prems"(1) by (simp_all add: block_cipher_def dst_def)
    have rest: "length (drop BlockSize src) mod BlockSize = 0"
      using ge "1.prems"(3) by (metis le_mod_geq length_drop)
    have IH: "cbc_decrypt_blocks block dst (cbc_encrypt_blocks block dst (drop BlockSize src))
              = drop BlockSize src"
      using "1.IH"[OF False dst_def[unfolded x_def] "1.prems"(1) dst rest] .
    have enc: "cbc_encrypt_blocks block iv src = dst @ cbc_encrypt_blocks block dst (drop BlockSize src)"
      using False by (subst cbc_encrypt_blocks.simps) (simp add: Let_def dst_def x_def)
    have first: "xor_bytes x iv = take BlockSize src"
      unfolding x_def using ge "1.prems"(2) by (intro xor_bytes_cancel) simp
    show ?thesis
      unfolding enc using dst dec IH first
      by (subst cbc_decrypt_blocks.simps) (simp add: Let_def)
  qed
qed

lemma unat_byte_of_int: "n \<le> BlockSize \<Longrightarrow> unat (byte_of_int n) = n"
  by (simp add: byte_of_int_def unat_of_nat)

lemma length_Encrypt_padtext:
  "length (Encrypt_padtext bs) = BlockSize - length bs mod BlockSize"
  by (simp add: Encrypt_padtext_def Let_def)

lemma padded_length_mod:
  "(length bs + length (Encrypt_padtext bs)) mod BlockSize = 0"
proof -
  have "(length bs + (BlockSize - length bs mod BlockSize)) mod BlockSize = 0"
    by presburger
  thus ?thesis by (simp only: length_Encrypt_padtext)
qed

lemma Decrypt_unpad_padded:
  "Decrypt_unpad (bs @ Encrypt_padtext bs) = Inr (string_of_bytes bs)"
proof -
  define n where "n = BlockSize - length bs mod BlockSize"
  have n: "1 \<le> n" "n \<le> BlockSize" by (simp_all add: n_def)
  have pt: "Encrypt_padtext bs = replicate n (byte_of_int n)"
    by (simp add: Encrypt_padtext_def Let_def n_def)
  have last: "last (bs @ replicate n (byte_of_int n)) = byte_of_int n"
    using n by (cases n) simp_all
  have all: "list_all (\<lambda>i. (bs @ replicate n (byte_of_int n)) ! i = byte_of_int n)
               [length bs + n - n ..< length bs + n - 1]"
    using n by (auto simp add: list_all_iff nth_append)
  show ?thesis
    unfolding pt Decrypt_unpad_def
    using n all by (simp add: last unat_byte_of_int Let_def del: last_append last_replicate)
qed

lemma encode_digit_in: "encode_digit v \<in> set encodeStd"
  by (simp add: encode_digit_def and_63_nat length_encodeStd)

lemma base64_chars: "set (base64_EncodeToString bs) \<subseteq> insert (CHR ''='') (set encodeStd)"
  by (induction bs rule: base64_EncodeToString.induct) (auto simp: Let_def encode_digit_in)

lemma base64_roundtrip: "base64_DecodeString (base64_EncodeToString bs) = Some bs"
proof -
  have "CHR 0x0D \<notin> insert (CHR ''='') (set encodeStd)" "CHR 0x0A \<notin> insert (CHR ''='') (set encodeStd)"
    by (simp_all add: encodeStd_def)
  hence "\<forall>c \<in> set (base64_EncodeToString bs). c \<noteq> CHR 0x0D \<and> c \<noteq> CHR 0x0A"
    using base64_chars[of bs] by blast
  hence "filter (\<lambda>c. c \<noteq> CHR 0x0D \<and> c \<noteq> CHR 0x0A) (base64_EncodeToString bs) = base64_EncodeToString bs"
    by (simp only: filter_id_conv)
  thus ?thesis by (simp add: base64_DecodeString_def decodeQuanta_EncodeToString)
qed

lemma length_bytes_of_string: "length (bytes_of_string s) = length s"
  by (simp add: bytes_of_string_def)

lemma Encrypt_eq:
  assumes "length key = 32" "BlockSize \<le> length rand_Reader"
  shows "Encrypt aes plainText key rand_Reader =
    (Inr (base64_EncodeToString (bytes_of_string
            (hex_EncodeToString (take BlockSize rand_Reader) @
             hex_EncodeToString (cbc_encrypt_blocks (aes key) (take BlockSize rand_Reader)
               (bytes_of_string plainText @ Encrypt_padtext (bytes_of_string plainText)))))),
     drop BlockSize rand_Reader)"
  using assms padded_length_mod[of "bytes_of_string plainText"]
  by (simp add: Encrypt_def aes_NewCipher_def io_ReadFull_def CBCEncrypter_CryptBlocks_def Let_def)

lemma Decrypt_envelope:
  assumes "length key = 32" "length iv = BlockSize" "length ct mod BlockSize = 0"
  shows "Decrypt aes (base64_EncodeToString (bytes_of_string (hex_EncodeToString iv @ hex_EncodeToString ct))) key
         = Decrypt_unpad (cbc_decrypt_blocks (aes key) iv ct)"
  using assms
  by (simp add: Decrypt_def base64_roundtrip string_of_bytes_of_string length_hex hex_roundtrip
        aes_NewCipher_def CBCDecrypter_CryptBlocks_def Let_def)

subsection \<open>AES meets the contract of a block cipher\<close>

lemma xtime_xor: "xtime (a XOR b) = xtime a XOR xtime b"
  by (cases "bit a 7"; cases "bit b 7") (simp_all add: xtime_def bit_xor_iff push_bit_xor ac_simps)

lemma xor_cancel_left: "a XOR (a XOR b) = (b::byte)"
  by (simp add: xor.assoc[symmetric])

lemma mix_column_inverse:
  "InvMixColumns (MixColumns [a, b, c, d]) = [a, b, c, d]"
  by (simp add: mul3_def mul9_def mul11_def mul13_def mul14_def xtime_xor xor_cancel_left ac_simps)

lemma MixColumns_inverse: "InvMixColumns (MixColumns s) = s"
proof (induction s rule: MixColumns.induct)
  case (1 a b c d s)
  have "InvMixColumns (MixColumns (a # b # c # d # s)) =
          InvMixColumns (MixColumns [a, b, c, d]) @ InvMixColumns (MixColumns s)"
    by simp
  thus ?case using 1 by (simp only: mix_column_inverse) simp
qed simp_all

lemma length_MixColumns: "length (MixColumns s) = length s"
  by (induction s rule: MixColumns.induct) simp_all



lemma length_16_cases:
  assumes "length s = 16"
  obtains a0 a1 a2 a3 a4 a5 a6 a7 a8 a9 a10 a11 a12 a13 a14 a15 where
    "s = [a0, a1, a2, a3, a4, a5, a6, a7, a8, a9, a10, a11, a12, a13, a14, a15]"
  using assms by (auto simp add: numeral_eq_Suc length_Suc_conv)

lemma ShiftRows_inverse: "length s = 16 \<Longrightarrow> InvShiftRows (ShiftRows s) = s"
  by (erule length_16_cases) (simp add: ShiftRows_def InvShiftRows_def)

lemma length_ShiftRows: "length (ShiftRows s) = 16"
  by (simp add: ShiftRows_def)

lemma length_SubBytes: "length (SubBytes s) = length s"
  by (simp add: SubBytes_def)

lemma length_AddRoundKey: "length k = length s \<Longrightarrow> length (AddRoundKey s k) = length s"
  by (simp add: AddRoundKey_def xor_bytes_def)

lemma AddRoundKey_inverse: "length k = length s \<Longrightarrow> AddRoundKey (AddRoundKey s k) k = s"
  unfolding AddRoundKey_def xor_bytes_def
  by (rule nth_equalityI) (simp_all add: xor.assoc)



lemma byte_induct:
  assumes "list_all (\<lambda>n. P (of_nat n :: byte)) [0..<256]"
  shows "P x"
proof -
  have "unat x < 256" using unsigned_less[of x, where ?'a=nat] by simp
  hence "unat x \<in> set [0..<256]" by simp
  with assms have "P (of_nat (unat x))" by (simp only: list_all_iff)
  thus ?thesis by simp
qed

lemma sbox_inverse: "inv_sbox ! unat (sbox ! unat b) = b"
  by (rule byte_induct) (simp add: upt_rec sbox_def inv_sbox_def)

lemma SubBytes_inverse: "InvSubBytes (SubBytes s) = s"
  by (induction s) (simp_all add: SubBytes_def InvSubBytes_def sbox_inverse)

lemma round_inverse:
  assumes "length s = 16" and "length (round_key w r) = 16"
  shows "InvMixColumns (AddRoundKey (InvSubBytes (InvShiftRows
           (ShiftRows (SubBytes (AddRoundKey (MixColumns (ShiftRows (SubBytes s))) (round_key w r))))))
           (round_key w r)) = ShiftRows (SubBytes s)"
proof -
  let ?m = "MixColumns (ShiftRows (SubBytes s))"
  let ?e = "AddRoundKey ?m (round_key w r)"
  have m: "length ?m = 16" by (simp add: length_MixColumns length_ShiftRows)
  have e: "length ?e = 16" using m assms(2) by (simp add: length_AddRoundKey)
  have "InvSubBytes (InvShiftRows (ShiftRows (SubBytes ?e))) = ?e"
    using e by (simp add: ShiftRows_inverse length_SubBytes SubBytes_inverse)
  moreover have "AddRoundKey ?e (round_key w r) = ?m"
    using m assms(2) by (simp add: AddRoundKey_inverse)
  ultimately show ?thesis by (simp add: MixColumns_inverse)
qed

lemma length_rounds:
  "length s = 16 \<Longrightarrow> (\<forall>i < n. length (round_key w (r + i)) = 16)
   \<Longrightarrow> length (rounds w r n s) = 16"
proof (induction n arbitrary: r s)
  case 0
  thus ?case by simp
next
  case (Suc n)
  have k: "length (round_key w r) = 16" using Suc.prems(2)[rule_format, of 0] by simp
  have e: "length (AddRoundKey (MixColumns (ShiftRows (SubBytes s))) (round_key w r)) = 16"
    using k by (simp add: length_AddRoundKey length_MixColumns length_ShiftRows)
  have "\<forall>i < n. length (round_key w (Suc r + i)) = 16"
    using Suc.prems(2) by (metis Suc_less_eq add_Suc_right add_Suc)
  from Suc.IH[OF e this] show ?case by simp
qed

lemma inv_rounds_snoc:
  "inv_rounds w r (Suc n) t =
     InvMixColumns (AddRoundKey (InvSubBytes (InvShiftRows (inv_rounds w r n t))) (round_key w (r - n)))"
proof (induction n arbitrary: r t)
  case 0
  show ?case by simp
next
  case (Suc n)
  let ?d = "InvMixColumns (AddRoundKey (InvSubBytes (InvShiftRows t)) (round_key w r))"
  have "inv_rounds w r (Suc (Suc n)) t = inv_rounds w (r - 1) (Suc n) ?d"
    by (simp only: inv_rounds.simps)
  also have "\<dots> = InvMixColumns (AddRoundKey (InvSubBytes (InvShiftRows
                       (inv_rounds w (r - 1) n ?d))) (round_key w (r - 1 - n)))"
    by (rule Suc.IH)
  also have "inv_rounds w (r - 1) n ?d = inv_rounds w r (Suc n) t"
    by (simp only: inv_rounds.simps)
  also have "r - 1 - n = r - Suc n" by simp
  finally show ?case .
qed

lemma rounds_inverse:
  "length s = 16 \<Longrightarrow> (\<forall>i < n. length (round_key w (r + i)) = 16) \<Longrightarrow> 0 < r
   \<Longrightarrow> inv_rounds w (r + n - 1) n (ShiftRows (SubBytes (rounds w r n s))) = ShiftRows (SubBytes s)"
proof (induction n arbitrary: r s)
  case 0
  thus ?case by simp
next
  case (Suc n)
  let ?e = "AddRoundKey (MixColumns (ShiftRows (SubBytes s))) (round_key w r)"
  have k: "length (round_key w r) = 16" using Suc.prems(2)[rule_format, of 0] by simp
  have e: "length ?e = 16"
    using k by (simp add: length_AddRoundKey length_MixColumns length_ShiftRows)
  have ks: "\<forall>i < n. length (round_key w (Suc r + i)) = 16"
    using Suc.prems(2) by (metis Suc_less_eq add_Suc_right add_Suc)
  have IH: "inv_rounds w (r + n) n (ShiftRows (SubBytes (rounds w (Suc r) n ?e))) = ShiftRows (SubBytes ?e)"
    using Suc.IH[OF e ks] by simp
  have "inv_rounds w (r + Suc n - 1) (Suc n) (ShiftRows (SubBytes (rounds w r (Suc n) s)))
        = InvMixColumns (AddRoundKey (InvSubBytes (InvShiftRows
            (inv_rounds w (r + n) n (ShiftRows (SubBytes (rounds w (Suc r) n ?e))))))
            (round_key w r))"
    by (simp only: inv_rounds_snoc rounds.simps) simp
  also have "\<dots> = ShiftRows (SubBytes s)"
    by (simp only: IH round_inverse[OF Suc.prems(1) k])
  finally show ?case .
qed

lemma Cipher_inverse:
  assumes "round_keys_ok Nr w" and "length b = 16"
  shows "InvCipher Nr w (Cipher Nr w b) = b" and "length (Cipher Nr w b) = 16"
proof -
  have k: "length (round_key w r) = 16" if "r \<le> Nr" for r
    using assms(1) that by (simp add: round_keys_ok_def)
  let ?a = "AddRoundKey b (round_key w 0)"
  let ?s = "rounds w 1 (Nr - 1) ?a"
  have a: "length ?a = 16" using k[of 0] assms(2) by (simp add: length_AddRoundKey)
  have ks: "\<forall>i < Nr - 1. length (round_key w (1 + i)) = 16" using k by simp
  have s: "length ?s = 16" by (rule length_rounds[OF a ks])
  have f: "length (ShiftRows (SubBytes ?s)) = 16"
    using s by (simp add: length_ShiftRows length_SubBytes)
  show "length (Cipher Nr w b) = 16"
    using k[of Nr] f by (simp add: Cipher_def Let_def length_AddRoundKey)
  have "AddRoundKey (AddRoundKey (ShiftRows (SubBytes ?s)) (round_key w Nr)) (round_key w Nr)
        = ShiftRows (SubBytes ?s)"
    using k[of Nr] f by (simp add: AddRoundKey_inverse)
  moreover have "inv_rounds w (Nr - 1) (Nr - 1) (ShiftRows (SubBytes ?s)) = ShiftRows (SubBytes ?a)"
    using rounds_inverse[OF a ks] by simp
  moreover have "InvSubBytes (InvShiftRows (ShiftRows (SubBytes ?a))) = ?a"
    using a by (simp add: ShiftRows_inverse length_SubBytes SubBytes_inverse)
  moreover have "AddRoundKey ?a (round_key w 0) = b"
    using k[of 0] assms(2) by (simp add: AddRoundKey_inverse)
  ultimately show "InvCipher Nr w (Cipher Nr w b) = b"
    by (simp add: Cipher_def InvCipher_def Let_def)
qed

lemma length_words_elem: "x \<in> set (words s) \<Longrightarrow> length x = 4"
  by (induction s rule: words.induct) auto

lemma length_words: "length (words s) = length s div 4"
  by (induction s rule: words.induct) simp_all

lemma expand_lengths:
  "(\<forall>x \<in> set w. length x = 4) \<Longrightarrow> i = length w \<Longrightarrow> Nk \<le> i \<Longrightarrow> 0 < Nk
   \<Longrightarrow> (\<forall>x \<in> set (expand Nk n i w). length x = 4) \<and> length (expand Nk n i w) = length w + n"
proof (induction n arbitrary: i w)
  case 0
  thus ?case by simp
next
  case (Suc n)
  define temp where
    "temp = (if i mod Nk = 0 then xor_bytes (SubWord (RotWord (last w))) [Rcon (i div Nk), 0, 0, 0]
             else if 6 < Nk \<and> i mod Nk = 4 then SubWord (last w) else last w)"
  have ne: "w \<noteq> []" using Suc.prems(2,3,4) by auto
  hence "last w \<in> set w" by simp
  hence l: "length (last w) = 4" using Suc.prems(1) by simp
  have t: "length temp = 4"
    using l by (simp add: temp_def xor_bytes_def SubWord_def RotWord_def)
  have "w ! (i - Nk) \<in> set w" using Suc.prems(2,3,4) by simp
  hence p: "length (w ! (i - Nk)) = 4" using Suc.prems(1) by simp
  have n: "length (xor_bytes (w ! (i - Nk)) temp) = 4"
    using t p by (simp add: xor_bytes_def)
  have a: "\<forall>x \<in> set (w @ [xor_bytes (w ! (i - Nk)) temp]). length x = 4"
    using Suc.prems(1) n by simp
  have b: "Suc i = length (w @ [xor_bytes (w ! (i - Nk)) temp])"
    using Suc.prems(2) by simp
  have c: "Nk \<le> Suc i" using Suc.prems(3) by simp
  have e: "expand Nk (Suc n) i w = expand Nk n (Suc i) (w @ [xor_bytes (w ! (i - Nk)) temp])"
    by (simp add: temp_def Let_def)
  from Suc.IH[OF a b c Suc.prems(4)] show ?case unfolding e by simp
qed

lemma length_concat_words:
  "(\<forall>x \<in> set ws. length x = 4) \<Longrightarrow> length (concat ws) = 4 * length ws"
  by (induction ws) simp_all

lemma round_keys_ok_KeyExpansion:
  assumes "4 \<le> length key"
  shows "round_keys_ok (length key div 4 + 6) (KeyExpansion key)"
proof -
  let ?w = "KeyExpansion key"
  let ?Nk = "length key div 4"
  have Nk: "0 < ?Nk" using assms by simp
  have "(\<forall>x \<in> set ?w. length x = 4) \<and> length ?w = length (words key) + (4 * (?Nk + 6 + 1) - ?Nk)"
    unfolding KeyExpansion_def Let_def
    by (rule expand_lengths) (simp_all add: length_words_elem length_words Nk)
  hence a: "\<forall>x \<in> set ?w. length x = 4" and l: "length ?w = 4 * (?Nk + 7)"
    by (simp_all add: length_words)
  have "length (round_key ?w r) = 16" if "r \<le> ?Nk + 6" for r
  proof -
    have "\<forall>x \<in> set (take 4 (drop (4 * r) ?w)). length x = 4"
      using a by (meson in_set_dropD in_set_takeD)
    hence "length (round_key ?w r) = 4 * length (take 4 (drop (4 * r) ?w))"
      unfolding round_key_def by (rule length_concat_words)
    thus ?thesis using l that by simp
  qed
  thus ?thesis by (simp add: round_keys_ok_def)
qed

lemma block_cipher_AES: "4 \<le> length key \<Longrightarrow> block_cipher (AES key)"
  using Cipher_inverse[OF round_keys_ok_KeyExpansion]
  by (simp add: block_cipher_def AES_def Let_def)

section \<open>Properties of the repositories and of the sharing loop\<close>

lemma GetByID_Some:
  assumes "VaultRepository_GetByID vaultID w = (Inr (Some vault), w1)"
  shows "\<exists>stored. (vaultID, stored) \<in> set (vaults w) \<and> vault = stored\<lparr>ID := vaultID\<rparr>"
    and "vaults w1 = vaults w" and "users w1 = users w" and "audit_logs w1 = audit_logs w"
    and "user_faults w1 = user_faults w" and "audit_faults w1 = audit_faults w" and "now w1 = now w"
    and "ID vault = vaultID" and "vaultID \<noteq> []"
  using assms
  by (auto simp add: VaultRepository_GetByID_def Let_def split: if_splits option.splits
        dest: map_of_SomeD)

lemma GetByID_world:
  "vaults (snd (VaultRepository_GetByID vaultID w)) = vaults w"
  by (simp add: VaultRepository_GetByID_def Let_def split: option.splits)

lemma set_AList_update: "set (AList.update k v al) \<subseteq> insert (k, v) (set al)"
  by (induction al) auto

lemma list_all_AList_update:
  "list_all P al \<Longrightarrow> P (k, v) \<Longrightarrow> list_all P (AList.update k v al)"
  using set_AList_update[of k v al] by (auto simp add: list_all_iff)

lemma Update_owners_not_shared:
  "owners_not_shared w \<Longrightarrow> owner_not_shared vault
   \<Longrightarrow> owners_not_shared (snd (VaultRepository_Update vault w))"
  by (simp add: VaultRepository_Update_def owners_not_shared_def Let_def list_all_AList_update)

lemma CreateAuditLog_vaults: "vaults (snd (CreateAuditLog a e w)) = vaults w"
  by (simp add: CreateAuditLog_def AuditRepository_Create_def Let_def)

lemma UserRepository_GetByID_vaults: "vaults (snd (UserRepository_GetByID u w)) = vaults w"
  by (simp add: UserRepository_GetByID_def Let_def split: option.splits)

lemma CountByOwnerID_vaults: "vaults (snd (VaultRepository_CountByOwnerID u w)) = vaults w"
  by (simp add: VaultRepository_CountByOwnerID_def Let_def)

lemma ShareVault_audit_vaults: "vaults (ShareVault_audit a ownerID vaultID p ts w) = vaults w"
  by (induction ts arbitrary: w) (simp_all add: CreateAuditLog_vaults)

lemma owners_not_shared_cong: "vaults w' = vaults w \<Longrightarrow> owners_not_shared w' = owners_not_shared w"
  by (simp add: owners_not_shared_def)

lemma ShareVault_loop_inv:
  assumes "ShareVault_loop ownerID p ts vault shared w = (vault', shared', w')"
  shows "OwnerID vault' = OwnerID vault \<and> ID vault' = ID vault \<and> vaults w' = vaults w \<and>
         (OwnerID vault = ownerID \<longrightarrow> owner_not_shared vault \<longrightarrow> owner_not_shared vault')"
  using assms
proof (induction ts arbitrary: vault shared w)
  case Nil
  thus ?case by simp
next
  case (Cons t ts)
  show ?case
  proof (cases "t = ownerID")
    case True
    with Cons show ?thesis by simp
  next
    case False
    obtain r w1 where g: "UserRepository_GetByID t w = (r, w1)" by (cases "UserRepository_GetByID t w")
    have v: "vaults w1 = vaults w" using UserRepository_GetByID_vaults[of t w] g by simp
    show ?thesis
    proof (cases "\<exists>u. r = Inr (Some u)")
      case True
      then obtain u where r: "r = Inr (Some u)" by blast
      let ?v = "vault\<lparr>SharedWith := (SharedWith vault)(t \<mapsto> p)\<rparr>"
      have "ShareVault_loop ownerID p ts ?v (shared @ [t]) w1 = (vault', shared', w')"
        using Cons.prems False g r by simp
      from Cons.IH[OF this] v False show ?thesis
        by (auto simp add: owner_not_shared_def)
    next
      case False
      hence "ShareVault_loop ownerID p ts vault shared w1 = (vault', shared', w')"
        using Cons.prems \<open>t \<noteq> ownerID\<close> g
        by (auto split: sum.splits option.splits)
      from Cons.IH[OF this] v show ?thesis by simp
    qed
  qed
qed

lemma GetByID_inv:
  assumes "owners_not_shared w" and "VaultRepository_GetByID vaultID w = (r, w1)"
  shows "owners_not_shared w1" and "r = Inr (Some vault) \<Longrightarrow> owner_not_shared vault"
proof -
  have "vaults w1 = vaults w" using GetByID_world[of vaultID w] assms(2) by simp
  thus "owners_not_shared w1" using assms(1) by (simp add: owners_not_shared_def)
  assume "r = Inr (Some vault)"
  with assms(2) obtain stored where "(vaultID, stored) \<in> set (vaults w)" "vault = stored\<lparr>ID := vaultID\<rparr>"
    using GetByID_Some(1) by blast
  with assms(1) show "owner_not_shared vault"
    by (auto simp add: owners_not_shared_def owner_not_shared_def list_all_iff)
qed

lemma ShareVault_preserves:
  assumes "owners_not_shared w"
  shows "owners_not_shared (snd (ShareVault s ownerID vaultID req w))"
proof -
  obtain r w1 where g: "VaultRepository_GetByID vaultID w = (r, w1)"
    by (cases "VaultRepository_GetByID vaultID w")
  note w1 = GetByID_inv(1)[OF assms g]
  show ?thesis
  proof (cases "\<exists>vault. r = Inr (Some vault)")
    case False
    thus ?thesis using g w1 assms
      by (auto simp add: ShareVault_def split: sum.splits option.splits)
  next
    case True
    then obtain vault where r: "r = Inr (Some vault)" by blast
    note v = GetByID_inv(2)[OF assms g r]
    obtain vault' granted w2 where
      l: "ShareVault_loop ownerID (PermissionLevel req) (UserIDs req) vault [] w1 = (vault', granted, w2)"
      by (cases "ShareVault_loop ownerID (PermissionLevel req) (UserIDs req) vault [] w1") auto
    note li = ShareVault_loop_inv[OF l]
    have w2: "owners_not_shared w2" using li w1 by (simp add: owners_not_shared_def)
    have v': "OwnerID vault = ownerID \<Longrightarrow> owner_not_shared (vault'\<lparr>UpdatedAt := now w2\<rparr>)"
      using li v by (auto simp add: owner_not_shared_def)
    have upd: "OwnerID vault = ownerID \<Longrightarrow>
      owners_not_shared (snd (VaultRepository_Update (vault'\<lparr>UpdatedAt := now w2\<rparr>) w2))"
      using Update_owners_not_shared[OF w2 v'] .
    show ?thesis
      using g r l w1 w2 upd assms
      by (auto simp add: ShareVault_def owners_not_shared_cong[OF ShareVault_audit_vaults]
            split: prod.splits option.splits)
  qed
qed

lemma UpdateSharePermissions_preserves:
  assumes "owners_not_shared w"
  shows "owners_not_shared (snd (UpdateSharePermissions s ownerID vaultID targetUserID permissionLevel w))"
proof -
  obtain r w1 where g: "VaultRepository_GetByID vaultID w = (r, w1)"
    by (cases "VaultRepository_GetByID vaultID w")
  note w1 = GetByID_inv(1)[OF assms g]
  show ?thesis
  proof (cases "\<exists>vault. r = Inr (Some vault)")
    case False
    thus ?thesis using g w1 assms
      by (auto simp add: UpdateSharePermissions_def split: sum.splits option.splits)
  next
    case True
    then obtain vault where r: "r = Inr (Some vault)" by blast
    note v = GetByID_inv(2)[OF assms g r]
    let ?v = "vault\<lparr>SharedWith := (SharedWith vault)(targetUserID \<mapsto> permissionLevel), UpdatedAt := now w1\<rparr>"
    have "OwnerID vault = ownerID \<Longrightarrow> targetUserID \<noteq> ownerID \<Longrightarrow> owner_not_shared ?v"
      using v by (simp add: owner_not_shared_def)
    hence upd: "OwnerID vault = ownerID \<Longrightarrow> targetUserID \<noteq> ownerID \<Longrightarrow>
      owners_not_shared (snd (VaultRepository_Update ?v w1))"
      using Update_owners_not_shared[OF w1] by blast
    show ?thesis
      using g r w1 upd assms
      by (auto simp add: UpdateSharePermissions_def owners_not_shared_cong[OF CreateAuditLog_vaults]
            split: prod.splits option.splits)
  qed
qed

lemma RemoveShare_preserves:
  assumes "owners_not_shared w"
  shows "owners_not_shared (snd (RemoveShare s ownerID vaultID targetUserID w))"
proof -
  obtain r w1 where g: "VaultRepository_GetByID vaultID w = (r, w1)"
    by (cases "VaultRepository_GetByID vaultID w")
  note w1 = GetByID_inv(1)[OF assms g]
  show ?thesis
  proof (cases "\<exists>vault. r = Inr (Some vault)")
    case False
    thus ?thesis using g w1 assms
      by (auto simp add: RemoveShare_def split: sum.splits option.splits)
  next
    case True
    then obtain vault where r: "r = Inr (Some vault)" by blast
    note v = GetByID_inv(2)[OF assms g r]
    let ?v = "vault\<lparr>SharedWith := (SharedWith vault)(targetUserID := None), UpdatedAt := now w1\<rparr>"
    have "owner_not_shared ?v"
      using v by (simp add: owner_not_shared_def)
    hence upd: "owners_not_shared (snd (VaultRepository_Update ?v w1))"
      using Update_owners_not_shared[OF w1] by blast
    show ?thesis
      using g r w1 upd assms
      by (auto simp add: RemoveShare_def owners_not_shared_cong[OF CreateAuditLog_vaults]
            split: prod.splits option.splits)
  qed
qed

lemma Create_inv:
  assumes "owners_not_shared w" and "owner_not_shared vault"
  shows "owners_not_shared (snd (VaultRepository_Create vault w))"
  using assms
  by (auto simp add: VaultRepository_Create_def Let_def owners_not_shared_def owner_not_shared_def
        split: list.splits)

lemma CreateVault_preserves:
  assumes "owners_not_shared w"
  shows "owners_not_shared (snd (CreateVault s userID req w))"
proof -
  obtain r1 w1 where u: "UserRepository_GetByID userID w = (r1, w1)"
    by (cases "UserRepository_GetByID userID w")
  have w1: "owners_not_shared w1"
    using UserRepository_GetByID_vaults[of userID w] u assms by (simp add: owners_not_shared_def)
  obtain r2 w2 where c: "VaultRepository_CountByOwnerID userID w1 = (r2, w2)"
    by (cases "VaultRepository_CountByOwnerID userID w1")
  have w2: "owners_not_shared w2"
    using CountByOwnerID_vaults[of userID w1] c w1 by (simp add: owners_not_shared_def)
  let ?v = "\<lparr>ID = [], OwnerID = userID, Name = Request_Name req,
             Description = Request_Description req, Tags = Request_Tags req,
             SharedWith = Map.empty, CreatedAt = now w2, UpdatedAt = now w2\<rparr>"
  have "owner_not_shared ?v" by (simp add: owner_not_shared_def)
  hence cr: "owners_not_shared (snd (VaultRepository_Create ?v w2))"
    using Create_inv[OF w2] by blast
  show ?thesis
    using assms u c w1 w2 cr
    by (auto simp add: CreateVault_def Let_def owners_not_shared_cong[OF CreateAuditLog_vaults]
          split: prod.splits sum.splits option.splits)
qed

lemma example_GetByID:
  "VaultRepository_GetByID ''v1'' example_world = (Inr (Some (example_vault\<lparr>ID := ''v1''\<rparr>)), example_world)"
  by (simp add: VaultRepository_GetByID_def example_world_def next_fault_def)

lemma example_world_simps:
  "vaults example_world = [(''v1'', example_vault)]" "users example_world = example_users"
  "audit_logs example_world = []" "vault_faults example_world = []" "user_faults example_world = []"
  "audit_faults example_world = []" "new_ids example_world = [''v2'']" "now example_world = 2"
  by (simp_all add: example_world_def)







lemma CreateVault_result:
  assumes "CreateVault s userID req w = (Inr vault, w')"
  shows "SharedWith vault = Map.empty \<and> OwnerID vault = userID \<and>
         map_of (vaults w') (ID vault) = Some vault"
proof -
  obtain r1 w1 where u: "UserRepository_GetByID userID w = (r1, w1)"
    by (cases "UserRepository_GetByID userID w")
  obtain r2 w2 where c: "VaultRepository_CountByOwnerID userID w1 = (r2, w2)"
    by (cases "VaultRepository_CountByOwnerID userID w1")
  let ?v = "\<lparr>ID = [], OwnerID = userID, Name = Request_Name req,
             Description = Request_Description req, Tags = Request_Tags req,
             SharedWith = Map.empty, CreatedAt = now w2, UpdatedAt = now w2\<rparr>"
  obtain r3 w3 where k: "VaultRepository_Create ?v w2 = (r3, w3)"
    by (cases "VaultRepository_Create ?v w2")
  from assms u c k obtain vaultID where r3: "r3 = Inr vaultID" and v: "vault = ?v\<lparr>ID := vaultID\<rparr>"
    and w': "vaults w' = vaults w3"
    by (auto simp add: CreateVault_def Let_def CreateAuditLog_vaults
          split: if_splits sum.splits option.splits)
  from k r3 have "map_of (vaults w3) vaultID = Some (?v\<lparr>ID := vaultID\<rparr>)"
    by (auto simp add: VaultRepository_Create_def Let_def map_add_def
          split: list.splits if_splits option.splits)
  thus ?thesis using v w' by simp
qed

lemma pair_snd_eq: "(p = (a, snd p)) = (fst p = a)"
  by (cases p) auto

lemma example_service: "vaultRepo example_vaultService" "userRepo example_vaultService"
    "auditService example_vaultService \<noteq> None"
  by (simp_all add: example_vaultService_def)

lemma example_auditService: "auditService example_vaultService = Some \<lparr>auditRepo = True\<rparr>"
  by (simp add: example_vaultService_def)

lemma UpdateVault_preserves:
  assumes "owners_not_shared w"
  shows "owners_not_shared (snd (UpdateVault s userID vaultID req w))"
proof -
  obtain r w1 where g: "VaultRepository_GetByID vaultID w = (r, w1)"
    by (cases "VaultRepository_GetByID vaultID w")
  note w1 = GetByID_inv(1)[OF assms g]
  show ?thesis
  proof (cases "\<exists>vault. r = Inr (Some vault)")
    case False
    thus ?thesis using g w1 assms
      by (auto simp add: UpdateVault_def split: sum.splits option.splits)
  next
    case True
    then obtain vault where r: "r = Inr (Some vault)" by blast
    note v = GetByID_inv(2)[OF assms g r]
    have upd: "owners_not_shared x"
      if "VaultRepository_Update v' w1 = (e, x)" and "SharedWith v' (OwnerID v') = None" for v' e x
      using Update_owners_not_shared[OF w1, of v'] that by (simp add: owner_not_shared_def)
    show ?thesis
      using g r w1 v assms
      by (auto simp add: UpdateVault_def Let_def owners_not_shared_cong[OF CreateAuditLog_vaults]
            owner_not_shared_def intro: upd split: prod.splits option.splits)
  qed
qed

lemma set_AList_delete: "set (AList.delete k al) \<subseteq> set al"
  by (induction al) auto

lemma Delete_owners_not_shared:
  "owners_not_shared w \<Longrightarrow> owners_not_shared (snd (VaultRepository_Delete vaultID w))"
  using set_AList_delete[of vaultID "vaults w"]
  by (auto simp add: VaultRepository_Delete_def owners_not_shared_def Let_def list_all_iff)

lemma DeleteByVaultID_vaults: "vaults (snd (SecretRepository_DeleteByVaultID vaultID w)) = vaults w"
  by (simp add: SecretRepository_DeleteByVaultID_def Let_def)

lemma DeleteVault_preserves:
  assumes "owners_not_shared w"
  shows "owners_not_shared (snd (DeleteVault s userID vaultID w))"
proof -
  obtain r w1 where g: "VaultRepository_GetByID vaultID w = (r, w1)"
    by (cases "VaultRepository_GetByID vaultID w")
  note w1 = GetByID_inv(1)[OF assms g]
  obtain r2 w2 where d: "SecretRepository_DeleteByVaultID vaultID w1 = (r2, w2)"
    by (cases "SecretRepository_DeleteByVaultID vaultID w1")
  have w2: "owners_not_shared w2"
    using DeleteByVaultID_vaults[of vaultID w1] d w1 by (simp add: owners_not_shared_def)
  note w3 = Delete_owners_not_shared[OF w2, of vaultID]
  show ?thesis
    using g d w1 w2 w3 assms
    by (auto simp add: DeleteVault_def owners_not_shared_cong[OF CreateAuditLog_vaults]
          split: prod.splits sum.splits option.splits)
qed






section \<open>The symmetric codec\<close>

text \<open>
  C1. Round trip: for every plaintext \<open>p\<close> (the empty string and strings of several
  blocks included), every key of 32 bytes and every IV that \<open>Encrypt\<close> draws (the
  first 16 bytes of the random source, whatever they are), \<open>Encrypt\<close> returns an
  envelope and \<open>Decrypt\<close> of that envelope under the same key returns exactly \<open>p\<close>.
  The block cipher is any implementation of the \<open>cipher.Block\<close> contract; \<open>AES\<close> is one
  for every key of 16, 24 or 32 bytes (lemma \<open>block_cipher_AES\<close>).
\<close>

theorem Decrypt_Encrypt_roundtrip:
  assumes "length key = 32" and "block_cipher (aes key)" and "BlockSize \<le> length rand_Reader"
  shows "\<exists>envelope. Encrypt aes p key rand_Reader = (Inr envelope, drop BlockSize rand_Reader) \<and>
                    Decrypt aes envelope key = Inr p"
proof -
  let ?iv = "take BlockSize rand_Reader"
  let ?padded = "bytes_of_string p @ Encrypt_padtext (bytes_of_string p)"
  let ?ct = "cbc_encrypt_blocks (aes key) ?iv ?padded"
  have iv: "length ?iv = BlockSize" using assms(3) by simp
  have padded: "length ?padded mod BlockSize = 0"
    using padded_length_mod[of "bytes_of_string p"] by simp
  have ct: "length ?ct mod BlockSize = 0"
    using length_cbc_encrypt_blocks[OF assms(2) iv padded] padded by simp
  have "Decrypt aes (base64_EncodeToString (bytes_of_string (hex_EncodeToString ?iv @ hex_EncodeToString ?ct))) key
        = Decrypt_unpad (cbc_decrypt_blocks (aes key) ?iv ?ct)"
    by (rule Decrypt_envelope[OF assms(1) iv ct])
  also have "\<dots> = Decrypt_unpad ?padded"
    by (simp only: cbc_roundtrip[OF assms(2) iv padded])
  also have "\<dots> = Inr p"
    by (simp only: Decrypt_unpad_padded string_of_bytes_of_string)
  finally show ?thesis
    using Encrypt_eq[OF assms(1) assms(3), of aes p] by simp
qed

theorem Decrypt_Encrypt_roundtrip_witness:
  "length example_key = 32 \<and> BlockSize \<le> length example_random \<and>
   (\<exists>envelope. Encrypt AES ''hello'' example_key example_random
                  = (Inr envelope, drop BlockSize example_random) \<and>
               Decrypt AES envelope example_key = Inr ''hello'')"
  using Decrypt_Encrypt_roundtrip[of example_key AES example_random "''hello''"]
        block_cipher_AES[of example_key]
  by (simp add: example_key_def example_random_def)

text \<open>
  C6. Envelope format: with a key of 32 bytes, \<open>Encrypt\<close> returns
  \<open>base64(hex(iv) + hex(ciphertext))\<close>, where \<open>iv\<close> is the 16 bytes drawn from the
  random source, so that its hex form has exactly 32 characters, and \<open>ciphertext\<close> is
  the CBC encryption of the padded plaintext. Consequently the base64 decoding of the
  envelope is a string whose first 32 characters hex-decode to the IV and whose remainder
  hex-decodes to the ciphertext, a byte sequence whose length is a multiple of 16.
\<close>

theorem Encrypt_envelope_format:
  assumes "length key = 32" and "block_cipher (aes key)" and "BlockSize \<le> length rand_Reader"
    and "iv = take BlockSize rand_Reader"
    and "ciphertext = cbc_encrypt_blocks (aes key) iv
                        (bytes_of_string p @ Encrypt_padtext (bytes_of_string p))"
    and "envelope = base64_EncodeToString
                      (bytes_of_string (hex_EncodeToString iv @ hex_EncodeToString ciphertext))"
  shows "Encrypt aes p key rand_Reader = (Inr envelope, drop BlockSize rand_Reader) \<and>
         length iv = 16 \<and> length (hex_EncodeToString iv) = 32 \<and>
         (\<exists>combinedBytes.
            base64_DecodeString envelope = Some combinedBytes \<and>
            hex_DecodeString (take 32 (string_of_bytes combinedBytes)) = Some iv \<and>
            hex_DecodeString (drop 32 (string_of_bytes combinedBytes)) = Some ciphertext) \<and>
         length ciphertext mod 16 = 0"
proof -
  let ?padded = "bytes_of_string p @ Encrypt_padtext (bytes_of_string p)"
  have iv: "length iv = BlockSize" using assms(3,4) by simp
  have padded: "length ?padded mod BlockSize = 0"
    using padded_length_mod[of "bytes_of_string p"] by simp
  have ct: "length ciphertext mod BlockSize = 0"
    using length_cbc_encrypt_blocks[OF assms(2) iv padded] padded assms(5) by simp
  show ?thesis
    using iv ct assms(4,5,6)
    by (simp add: Encrypt_eq[OF assms(1) assms(3)] base64_roundtrip string_of_bytes_of_string
          length_hex hex_roundtrip)
qed

theorem Encrypt_envelope_format_witness:
  "length example_key = 32 \<and> BlockSize \<le> length example_random \<and>
   (\<exists>envelope combinedBytes.
      Encrypt AES ''hello'' example_key example_random
        = (Inr envelope, drop BlockSize example_random) \<and>
      base64_DecodeString envelope = Some combinedBytes \<and>
      hex_DecodeString (take 32 (string_of_bytes combinedBytes)) = Some (take 16 example_random))"
proof -
  have k: "length example_key = 32" by (simp add: example_key_def)
  have r: "BlockSize \<le> length example_random" by (simp add: example_random_def)
  have b: "block_cipher (AES example_key)"
    using k by (simp add: block_cipher_AES)
  show ?thesis
    using Encrypt_envelope_format[where aes = AES and key = example_key
            and p = "''hello''", OF k b r refl refl refl] k r
    by blast
qed

text \<open>
  C7. Key-length guard: with a key that is not 32 bytes long, \<open>Encrypt\<close> and
  \<open>Decrypt\<close> fail with their key-length error whatever the cipher, the plaintext or
  envelope and the random source are, and \<open>Encrypt\<close> leaves the random source untouched:
  nothing else has run. With a key of 32 bytes neither fails with that error.
\<close>

theorem key_length_guard:
  "(length key \<noteq> 32 \<longrightarrow>
      Encrypt aes p key rand_Reader = (Inl EncryptionKeyNot32Bytes, rand_Reader) \<and>
      Decrypt aes c key = Inl DecryptionKeyNot32Bytes) \<and>
   (length key = 32 \<longrightarrow>
      fst (Encrypt aes p key rand_Reader) \<noteq> Inl EncryptionKeyNot32Bytes \<and>
      Decrypt aes c key \<noteq> Inl DecryptionKeyNot32Bytes)"
  by (auto simp add: Encrypt_def Decrypt_def Decrypt_unpad_def Let_def
        split: option.splits prod.splits if_splits)

theorem key_length_guard_witness:
  "length (take 16 example_key) \<noteq> 32 \<and>
   Encrypt AES ''hello'' (take 16 example_key) example_random
     = (Inl EncryptionKeyNot32Bytes, example_random) \<and>
   Decrypt AES ''YQ=='' (take 16 example_key) = Inl DecryptionKeyNot32Bytes \<and>
   length (example_key @ [33]) \<noteq> 32 \<and>
   Encrypt AES ''hello'' (example_key @ [33]) example_random
     = (Inl EncryptionKeyNot32Bytes, example_random) \<and>
   Decrypt AES ''YQ=='' (example_key @ [33]) = Inl DecryptionKeyNot32Bytes \<and>
   length example_key = 32 \<and>
   fst (Encrypt AES ''hello'' example_key example_random) \<noteq> Inl EncryptionKeyNot32Bytes \<and>
   Decrypt AES ''YQ=='' example_key \<noteq> Inl DecryptionKeyNot32Bytes"
  using key_length_guard[of "take 16 example_key" AES "''hello''" example_random "''YQ==''"]
        key_length_guard[of "example_key @ [33]" AES "''hello''" example_random "''YQ==''"]
        key_length_guard[of example_key AES "''hello''" example_random "''YQ==''"]
  by (simp add: example_key_def)

text \<open>
  C8. Padding: for a plaintext of \<open>L\<close> bytes \<open>Encrypt\<close> appends exactly
  \<open>n = 16 - L mod 16\<close> bytes, each of value \<open>n\<close>; \<open>n\<close> lies between 1 and 16, so a
  plaintext whose length is a multiple of 16 grows by a full block; and what \<open>Encrypt\<close>
  gives to the cipher is the plaintext followed by these bytes.
\<close>

theorem Encrypt_padding:
  assumes "n = BlockSize - length p mod BlockSize"
  shows "Encrypt_padtext (bytes_of_string p) = replicate n (byte_of_int n) \<and>
         length (Encrypt_padtext (bytes_of_string p)) = n \<and>
         (\<forall>b \<in> set (Encrypt_padtext (bytes_of_string p)). unat b = n) \<and>
         1 \<le> n \<and> n \<le> 16 \<and>
         length (bytes_of_string p @ Encrypt_padtext (bytes_of_string p)) = length p + n \<and>
         (length p mod 16 = 0 \<longrightarrow>
            length (bytes_of_string p @ Encrypt_padtext (bytes_of_string p)) = length p + 16) \<and>
         (length key = 32 \<and> BlockSize \<le> length rand_Reader \<longrightarrow>
            fst (Encrypt aes p key rand_Reader) =
              Inr (base64_EncodeToString (bytes_of_string
                (hex_EncodeToString (take BlockSize rand_Reader) @
                 hex_EncodeToString (cbc_encrypt_blocks (aes key) (take BlockSize rand_Reader)
                   (bytes_of_string p @ replicate n (byte_of_int n)))))))"
proof -
  have n: "1 \<le> n" "n \<le> 16" using assms by simp_all
  have pt: "Encrypt_padtext (bytes_of_string p) = replicate n (byte_of_int n)"
    using assms by (simp add: Encrypt_padtext_def Let_def length_bytes_of_string)
  have "length key = 32 \<and> BlockSize \<le> length rand_Reader \<longrightarrow>
            fst (Encrypt aes p key rand_Reader) =
              Inr (base64_EncodeToString (bytes_of_string
                (hex_EncodeToString (take BlockSize rand_Reader) @
                 hex_EncodeToString (cbc_encrypt_blocks (aes key) (take BlockSize rand_Reader)
                   (bytes_of_string p @ replicate n (byte_of_int n))))))"
    using Encrypt_eq[of key rand_Reader aes p] by (simp add: pt)
  thus ?thesis
    using n assms by (simp add: pt unat_byte_of_int length_bytes_of_string)
qed

theorem Encrypt_padding_witness:
  "(16::nat) = BlockSize - length ''0123456789abcdef'' mod BlockSize \<and>
   Encrypt_padtext (bytes_of_string ''0123456789abcdef'') = replicate 16 16 \<and>
   length (bytes_of_string ''0123456789abcdef'' @
           Encrypt_padtext (bytes_of_string ''0123456789abcdef'')) = 32"
  using Encrypt_padding[of 16 "''0123456789abcdef''" example_key example_random AES]
  by (simp add: byte_of_int_def)

section \<open>The access evaluation\<close>

text \<open>
  C2. The permission decision of \<open>checkVaultAccess\<close>, on the vault snapshot that the
  repository returns, for a required level of \<open>read\<close> or \<open>write\<close>: the owner is allowed
  whatever the sharing map holds; a requester who is not the owner and has no entry is
  refused with \<open>ErrForbiddenAccess\<close>; a stored level \<open>write\<close> satisfies both
  requirements; a stored level \<open>read\<close> satisfies \<open>read\<close> and is refused
  with \<open>ErrForbiddenAccess\<close> for \<open>write\<close>.
\<close>

theorem checkVaultAccess_decision:
  assumes "secretService_vaultRepo s"
    and "VaultRepository_GetByID vaultID w = (Inr (Some vault), w1)"
    and "required = ''read'' \<or> required = ''write''"
  shows "(userID = OwnerID vault \<longrightarrow>
            checkVaultAccess s userID vaultID required w = (Inr vault, w1)) \<and>
         (userID \<noteq> OwnerID vault \<and> SharedWith vault userID = None \<longrightarrow>
            checkVaultAccess s userID vaultID required w = (Inl ErrForbiddenAccess, w1)) \<and>
         (userID \<noteq> OwnerID vault \<and> SharedWith vault userID = Some ''write'' \<longrightarrow>
            checkVaultAccess s userID vaultID required w = (Inr vault, w1)) \<and>
         (userID \<noteq> OwnerID vault \<and> SharedWith vault userID = Some ''read'' \<longrightarrow>
            checkVaultAccess s userID vaultID ''read'' w = (Inr vault, w1) \<and>
            checkVaultAccess s userID vaultID ''write'' w = (Inl ErrForbiddenAccess, w1))"
  using assms by (auto simp add: checkVaultAccess_def)

theorem checkVaultAccess_decision_witness:
  "secretService_vaultRepo example_secretService \<and>
   checkVaultAccess example_secretService ''alice'' ''v1'' ''write'' example_world
     = (Inr (example_vault\<lparr>ID := ''v1''\<rparr>), example_world) \<and>
   checkVaultAccess example_secretService ''erin'' ''v1'' ''read'' example_world
     = (Inl ErrForbiddenAccess, example_world) \<and>
   checkVaultAccess example_secretService ''carol'' ''v1'' ''read'' example_world
     = (Inr (example_vault\<lparr>ID := ''v1''\<rparr>), example_world) \<and>
   checkVaultAccess example_secretService ''carol'' ''v1'' ''write'' example_world
     = (Inr (example_vault\<lparr>ID := ''v1''\<rparr>), example_world) \<and>
   checkVaultAccess example_secretService ''bob'' ''v1'' ''read'' example_world
     = (Inr (example_vault\<lparr>ID := ''v1''\<rparr>), example_world) \<and>
   checkVaultAccess example_secretService ''bob'' ''v1'' ''write'' example_world
     = (Inl ErrForbiddenAccess, example_world)"
proof -
  have s: "secretService_vaultRepo example_secretService"
    by (simp add: example_secretService_def)
  note d = checkVaultAccess_decision[OF s example_GetByID]
  show ?thesis
    using s d[of "''write''" "''alice''"] d[of "''read''" "''erin''"] d[of "''read''" "''carol''"]
      d[of "''write''" "''carol''"] d[of "''read''" "''bob''"]
    by (simp add: example_vault_def)
qed

text \<open>
  C3, as the code has it. For a requester who is not the owner and whose entry holds a value
  other than \<open>read\<close> and \<open>write\<close>, the claim expects \<open>ErrInvalidPermissionLevel\<close>.
  \<open>checkVaultAccess\<close> has no such test: both comparisons fail and it returns its last
  error, \<open>ErrForbiddenAccess\<close>, for every required level. First the claim refuted on the
  small world (\<open>dave\<close> holds \<open>admin\<close>), then the statement that holds.
\<close>

theorem checkVaultAccess_unknown_level_counterexample:
  "OwnerID example_vault \<noteq> ''dave'' \<and> SharedWith example_vault ''dave'' = Some ''admin'' \<and>
   fst (checkVaultAccess example_secretService ''dave'' ''v1'' ''read'' example_world)
     = Inl ErrForbiddenAccess \<and>
   fst (checkVaultAccess example_secretService ''dave'' ''v1'' ''read'' example_world)
     \<noteq> Inl ErrInvalidPermissionLevel"
  by (simp add: checkVaultAccess_def example_GetByID example_secretService_def example_vault_def)

text \<open>
  C3, amended: a stored level outside \<open>read\<close> and \<open>write\<close> grants nothing; the access
  evaluation fails with \<open>ErrForbiddenAccess\<close> for every required level and never with
  \<open>ErrInvalidPermissionLevel\<close>.
\<close>

theorem checkVaultAccess_unknown_level:
  assumes "secretService_vaultRepo s"
    and "VaultRepository_GetByID vaultID w = (Inr (Some vault), w1)"
    and "userID \<noteq> OwnerID vault"
    and "SharedWith vault userID = Some permission"
    and "permission \<noteq> ''read''" and "permission \<noteq> ''write''"
  shows "checkVaultAccess s userID vaultID required w = (Inl ErrForbiddenAccess, w1) \<and>
         fst (checkVaultAccess s userID vaultID required w) \<noteq> Inl ErrInvalidPermissionLevel"
  using assms by (auto simp add: checkVaultAccess_def)

theorem checkVaultAccess_unknown_level_witness:
  "secretService_vaultRepo example_secretService \<and>
   ''dave'' \<noteq> OwnerID (example_vault\<lparr>ID := ''v1''\<rparr>) \<and>
   SharedWith (example_vault\<lparr>ID := ''v1''\<rparr>) ''dave'' = Some ''admin'' \<and>
   checkVaultAccess example_secretService ''dave'' ''v1'' ''write'' example_world
     = (Inl ErrForbiddenAccess, example_world)"
proof -
  have s: "secretService_vaultRepo example_secretService"
    by (simp add: example_secretService_def)
  have o: "''dave'' \<noteq> OwnerID (example_vault\<lparr>ID := ''v1''\<rparr>)"
    and p: "SharedWith (example_vault\<lparr>ID := ''v1''\<rparr>) ''dave'' = Some ''admin''"
    by (simp_all add: example_vault_def)
  show ?thesis
    using s o p checkVaultAccess_unknown_level[OF s example_GetByID o p, of "''write''"]
    by simp
qed

text \<open>
  C10. \<open>GetVaultByID\<close> returns the vault to every requester who has an entry in the
  sharing map, whatever the stored value is (the value is read and not looked at); for a
  requester who is not the owner, \<open>ErrForbiddenAccess\<close> is returned exactly when there
  is no entry.
\<close>

theorem GetVaultByID_shared:
  assumes "vaultRepo s"
    and "VaultRepository_GetByID vaultID w = (Inr (Some vault), w1)"
  shows "(userID \<noteq> OwnerID vault \<and> SharedWith vault userID = Some permission \<longrightarrow>
            GetVaultByID s userID vaultID w = (Inr vault, w1)) \<and>
         (fst (GetVaultByID s userID vaultID w) = Inl ErrForbiddenAccess \<longleftrightarrow>
            userID \<noteq> OwnerID vault \<and> SharedWith vault userID = None)"
  using assms by (auto simp add: GetVaultByID_def split: option.splits)

theorem GetVaultByID_shared_witness:
  "vaultRepo example_vaultService \<and>
   SharedWith (example_vault\<lparr>ID := ''v1''\<rparr>) ''dave'' = Some ''admin'' \<and>
   GetVaultByID example_vaultService ''dave'' ''v1'' example_world
     = (Inr (example_vault\<lparr>ID := ''v1''\<rparr>), example_world) \<and>
   fst (GetVaultByID example_vaultService ''erin'' ''v1'' example_world) = Inl ErrForbiddenAccess"
proof -
  have s: "vaultRepo example_vaultService"
    by (simp add: example_vaultService_def)
  note d = GetVaultByID_shared[OF s example_GetByID]
  show ?thesis
    using s d[of "''dave''" "''admin''"] d[of "''erin''"]
    by (simp add: example_vault_def)
qed

section \<open>The sharing operations\<close>

text \<open>
  C4. The owner of a vault is never a key of its sharing map: if this holds of every stored
  vault, it holds again after \<open>CreateVault\<close>, \<open>ShareVault\<close>,
  \<open>UpdateSharePermissions\<close> and \<open>RemoveShare\<close>, on every input and whatever calls to
  the store fail (and after \<open>UpdateVault\<close> and \<open>DeleteVault\<close>, the two other
  operations that write vaults). The vault that \<open>CreateVault\<close> returns and stores has
  the empty sharing map.
\<close>

theorem owner_never_in_SharedWith:
  assumes "owners_not_shared w"
  shows "owners_not_shared (snd (CreateVault s userID creq w)) \<and>
         (CreateVault s userID creq w = (Inr newVault, w') \<longrightarrow>
            SharedWith newVault = Map.empty \<and> OwnerID newVault = userID \<and>
            map_of (vaults w') (ID newVault) = Some newVault) \<and>
         owners_not_shared (snd (ShareVault s ownerID vaultID req w)) \<and>
         owners_not_shared (snd (UpdateSharePermissions s ownerID vaultID targetUserID permissionLevel w)) \<and>
         owners_not_shared (snd (RemoveShare s ownerID vaultID targetUserID w)) \<and>
         owners_not_shared (snd (UpdateVault s ownerID vaultID ureq w)) \<and>
         owners_not_shared (snd (DeleteVault s ownerID vaultID w))"
  using assms CreateVault_result[of s userID creq w newVault w']
  by (simp add: CreateVault_preserves ShareVault_preserves UpdateSharePermissions_preserves
        RemoveShare_preserves UpdateVault_preserves DeleteVault_preserves)

theorem owner_never_in_SharedWith_witness:
  "owners_not_shared example_world \<and>
   owners_not_shared (snd (ShareVault example_vaultService ''alice'' ''v1''
       \<lparr>UserIDs = [''alice'', ''erin''], PermissionLevel = ''read''\<rparr> example_world)) \<and>
   fst (CreateVault example_vaultService ''bob''
       \<lparr>Request_Name = ''notes'', Request_Description = [], Request_Tags = []\<rparr> example_world)
     = Inr \<lparr>ID = ''v2'', OwnerID = ''bob'', Name = ''notes'', Description = [], Tags = [],
            SharedWith = Map.empty, CreatedAt = 2, UpdatedAt = 2\<rparr> \<and>
   map_of (vaults (snd (CreateVault example_vaultService ''bob''
       \<lparr>Request_Name = ''notes'', Request_Description = [], Request_Tags = []\<rparr> example_world))) ''v2''
     = Some \<lparr>ID = ''v2'', OwnerID = ''bob'', Name = ''notes'', Description = [], Tags = [],
             SharedWith = Map.empty, CreatedAt = 2, UpdatedAt = 2\<rparr> \<and>
   owners_not_shared (snd (CreateVault example_vaultService ''bob''
       \<lparr>Request_Name = ''notes'', Request_Description = [], Request_Tags = []\<rparr> example_world))"
proof -
  let ?creq = "\<lparr>Request_Name = ''notes'', Request_Description = [], Request_Tags = []\<rparr>"
  let ?v2 = "\<lparr>ID = ''v2'', OwnerID = ''bob'', Name = ''notes'', Description = [], Tags = [],
              SharedWith = Map.empty, CreatedAt = 2, UpdatedAt = 2\<rparr>"
  have i: "owners_not_shared example_world"
    by (simp add: owners_not_shared_def owner_not_shared_def example_world_def example_vault_def)
  have f: "fst (CreateVault example_vaultService ''bob'' ?creq example_world) = Inr ?v2"
    by (simp add: CreateVault_def example_service example_auditService UserRepository_GetByID_def
          example_world_simps example_users_def VaultRepository_CountByOwnerID_def
          checkVaultLimit_def VaultRepository_Create_def next_fault_def Let_def example_vault_def)
  show ?thesis
    using i f owner_never_in_SharedWith[OF i, where s = example_vaultService and userID = "''bob''"
        and creq = ?creq and newVault = ?v2
        and w' = "snd (CreateVault example_vaultService ''bob'' ?creq example_world)"
        and ownerID = "''alice''" and vaultID = "''v1''"
        and req = "\<lparr>UserIDs = [''alice'', ''erin''], PermissionLevel = ''read''\<rparr>"]
    by (simp add: pair_snd_eq)
qed







end
